theory Spec2Isabelle
  imports Complex_Main "HOL-Library.Multiset" "HOL-Library.Sublist" "HOL-Library.Log_Nat"
begin

section \<open>GR Cup race analytics engine: numbers and errors\<close>

text \<open>
  The engine (\<^verbatim>\<open>Stragery_engine.py\<close>, class \<^verbatim>\<open>GRCupAnalytics\<close>) computes with
  Python integers and Python floats. Integers are \<^typ>\<open>int\<close>. Every exception of the
  source is a value of the type \<open>error\<close>; for an operation of pandas on cells of the wrong
  kind the model says that it raises, and \<open>TypeError\<close> stands for whatever class pandas
  raises there.
\<close>

datatype error =
  ZeroDivisionError | TypeError | KeyError | ValueError | IndexError | OSError | OverflowError

text \<open>
  A Python float is an IEEE 754 binary64 number: a real number with a significand of 53
  bits, not-a-number, or an infinity. The sign of zero is not modelled (no operation of the
  engine tells the two zeros apart).
\<close>

datatype number = Finite real | NaN | PosInf | NegInf

text \<open>
  Rounding to the nearest integer, a value half way between two integers going to the
  even one.
\<close>

definition round_half_even :: "real \<Rightarrow> int" where
  "round_half_even x =
     (let f = \<lfloor>x\<rfloor>; d = x - of_int f
      in if d < 1 / 2 then f
         else if 1 / 2 < d then f + 1
         else if even f then f else f + 1)"

text \<open>
  The float nearest to a real number, as every arithmetic operation on floats and the
  reading of a decimal literal round: \<open>binade x\<close> is the exponent \<open>e\<close> with
  \<open>2\<^sup>e \<le> \<bar>x\<bar> < 2\<^sup>e\<^sup>+\<^sup>1\<close>, the spacing of the floats around \<open>x\<close> is \<open>2\<^sup>e\<^sup>-\<^sup>5\<^sup>2\<close> and
  never less than \<open>2\<^sup>-\<^sup>1\<^sup>0\<^sup>7\<^sup>4\<close>, a tie goes to the even significand, and a result of
  magnitude \<open>2\<^sup>1\<^sup>0\<^sup>2\<^sup>4\<close> or more is an infinity.
\<close>

definition binade :: "real \<Rightarrow> int" where
  "binade x =
     (if 1 \<le> \<bar>x\<bar> then bitlen \<lfloor>\<bar>x\<bar>\<rfloor> - 1 else - bitlen (\<lceil>1 / \<bar>x\<bar>\<rceil> - 1))"

definition double :: "real \<Rightarrow> number" where
  "double x =
     (if x = 0 then Finite 0
      else
        let q = max (binade x - 52) (- 1074);
            y = of_int (round_half_even (x / 2 powi q)) * 2 powi q
        in if 2 ^ 1024 \<le> \<bar>y\<bar> then (if 0 < y then PosInf else NegInf) else Finite y)"

text \<open>
  The arithmetic of floats: the exact result, rounded; the infinities and not-a-number
  behave as IEEE 754 says. Python raises on a division by zero before it divides, so the
  quotient by zero is never used (it is not-a-number here).
\<close>

fun float_neg :: "number \<Rightarrow> number" where
  "float_neg (Finite x) = Finite (- x)"
| "float_neg NaN = NaN"
| "float_neg PosInf = NegInf"
| "float_neg NegInf = PosInf"

fun float_add :: "number \<Rightarrow> number \<Rightarrow> number" where
  "float_add (Finite x) (Finite y) = double (x + y)"
| "float_add NaN b = NaN"
| "float_add a NaN = NaN"
| "float_add PosInf NegInf = NaN"
| "float_add NegInf PosInf = NaN"
| "float_add PosInf b = PosInf"
| "float_add NegInf b = NegInf"
| "float_add (Finite x) b = b"

definition float_sub :: "number \<Rightarrow> number \<Rightarrow> number" where
  "float_sub a b = float_add a (float_neg b)"

fun float_mul :: "number \<Rightarrow> number \<Rightarrow> number" where
  "float_mul (Finite x) (Finite y) = double (x * y)"
| "float_mul NaN b = NaN"
| "float_mul a NaN = NaN"
| "float_mul (Finite x) b = (if x = 0 then NaN else if 0 < x then b else float_neg b)"
| "float_mul a (Finite y) = (if y = 0 then NaN else if 0 < y then a else float_neg a)"
| "float_mul PosInf b = b"
| "float_mul NegInf b = float_neg b"

fun float_div :: "number \<Rightarrow> number \<Rightarrow> number" where
  "float_div (Finite x) (Finite y) = (if y = 0 then NaN else double (x / y))"
| "float_div NaN b = NaN"
| "float_div a NaN = NaN"
| "float_div (Finite x) b = Finite 0"
| "float_div a (Finite y) = (if y = 0 then NaN else if 0 < y then a else float_neg a)"
| "float_div a b = NaN"

fun float_lt :: "number \<Rightarrow> number \<Rightarrow> bool" where
  "float_lt (Finite x) (Finite y) = (x < y)"
| "float_lt NaN b = False"
| "float_lt a NaN = False"
| "float_lt NegInf b = (b \<noteq> NegInf)"
| "float_lt a PosInf = (a \<noteq> PosInf)"
| "float_lt a b = False"

text \<open>
  The conversion of an integer operand to a float: the nearest float, and
  \<^verbatim>\<open>OverflowError\<close> for an integer too large for any.
\<close>

definition float_of_int :: "int \<Rightarrow> error + number" where
  "float_of_int n =
     (case double (of_int n) of Finite y \<Rightarrow> Inr (Finite y) | _ \<Rightarrow> Inl OverflowError)"

text \<open>
  Python's \<^verbatim>\<open>int(x)\<close> on a float truncates towards zero; it raises on an infinity and on
  not-a-number.
\<close>

fun py_int :: "number \<Rightarrow> error + int" where
  "py_int (Finite x) = Inr (if 0 \<le> x then \<lfloor>x\<rfloor> else \<lceil>x\<rceil>)"
| "py_int NaN = Inl ValueError"
| "py_int PosInf = Inl OverflowError"
| "py_int NegInf = Inl OverflowError"

text \<open>
  Python's \<^verbatim>\<open>round(x, 1)\<close>: the exact value of the float rounded to one decimal place,
  half way going to the even digit, and the float nearest to that decimal; an infinity and
  not-a-number round to themselves.
\<close>

fun py_round1 :: "number \<Rightarrow> number" where
  "py_round1 (Finite x) = double (of_int (round_half_even (x * 10)) / 10)"
| "py_round1 NaN = NaN"
| "py_round1 PosInf = PosInf"
| "py_round1 NegInf = NegInf"

section \<open>Resource depletion predictor\<close>

text \<open>
  \<^verbatim>\<open>predict_pit_window(self, car_id, current_lap, fuel_per_lap=2.5, tire_deg_rate=3.2)\<close>
  returns a dictionary with a fixed set of keys: a record. The strings of the source
  stay strings. The lap is an integer and the two rates are floats.
\<close>

record 'c recommendation =
  car_id :: 'c
  current_lap :: int
  fuel_remaining_pct :: number
  tire_condition_pct :: number
  critical_factor :: string
  laps_until_critical :: number
  optimal_pit_lap :: int
  pit_window :: "int \<times> int"
  urgency :: string

text \<open>
  The local variables of the function, in the order the source computes them; \<open>lap\<close> is
  the lap number as the float that the multiplication makes of it.
\<close>

definition fuel_remaining :: "number \<Rightarrow> number \<Rightarrow> number" where
  "fuel_remaining lap fuel_per_lap = float_sub (Finite 100) (float_mul lap fuel_per_lap)"

definition tire_condition :: "number \<Rightarrow> number \<Rightarrow> number" where
  "tire_condition lap tire_deg_rate = float_sub (Finite 100) (float_mul lap tire_deg_rate)"

definition laps_on_fuel :: "number \<Rightarrow> number \<Rightarrow> number" where
  "laps_on_fuel lap fuel_per_lap = float_div (fuel_remaining lap fuel_per_lap) fuel_per_lap"

definition laps_on_tires :: "number \<Rightarrow> number \<Rightarrow> number" where
  "laps_on_tires lap tire_deg_rate = float_div (tire_condition lap tire_deg_rate) tire_deg_rate"

text \<open>The pair \<^verbatim>\<open>critical_factor\<close>, \<^verbatim>\<open>laps_remaining\<close> that the \<^verbatim>\<open>if\<close> assigns.\<close>

definition critical :: "number \<Rightarrow> number \<Rightarrow> string \<times> number" where
  "critical lf lt = (if float_lt lf lt then (''fuel'', lf) else (''tires'', lt))"

definition urgency_of :: "number \<Rightarrow> string" where
  "urgency_of laps_remaining =
     (if float_lt laps_remaining (Finite 3) then ''critical''
      else if float_lt laps_remaining (Finite 6) then ''high'' else ''medium'')"

text \<open>
  The first multiplication converts the lap number and raises \<^verbatim>\<open>OverflowError\<close> when it
  has no float; the two divisions raise \<^verbatim>\<open>ZeroDivisionError\<close> on a zero rate; \<^verbatim>\<open>int\<close>
  raises when the laps remaining are not finite. Nothing catches any of them.
\<close>

definition predict_pit_window ::
  "'c \<Rightarrow> int \<Rightarrow> number \<Rightarrow> number \<Rightarrow> error + 'c recommendation" where
  "predict_pit_window cid lap fuel_per_lap tire_deg_rate =
     (case float_of_int lap of
        Inl e \<Rightarrow> Inl e
      | Inr lapf \<Rightarrow>
          if fuel_per_lap = Finite 0 then Inl ZeroDivisionError
          else if tire_deg_rate = Finite 0 then Inl ZeroDivisionError
          else
            let (factor, laps_remaining) =
                  critical (laps_on_fuel lapf fuel_per_lap) (laps_on_tires lapf tire_deg_rate)
            in (case py_int (float_sub laps_remaining (Finite (5 / 2))) of
                  Inl e \<Rightarrow> Inl e
                | Inr k \<Rightarrow>
                    let optimal = lap + max 1 k
                    in Inr \<lparr>car_id = cid,
                            current_lap = lap,
                            fuel_remaining_pct = py_round1 (fuel_remaining lapf fuel_per_lap),
                            tire_condition_pct = py_round1 (tire_condition lapf tire_deg_rate),
                            critical_factor = factor,
                            laps_until_critical = py_round1 laps_remaining,
                            optimal_pit_lap = optimal,
                            pit_window = (optimal - 2, optimal + 2),
                            urgency = urgency_of laps_remaining\<rparr>))"

text \<open>
  The call with the default rates, as every caller inside the engine makes it: the floats
  that the literals \<^verbatim>\<open>2.5\<close> and \<^verbatim>\<open>3.2\<close> denote.
\<close>

definition predict_pit_window_default :: "'c \<Rightarrow> int \<Rightarrow> error + 'c recommendation" where
  "predict_pit_window_default cid lap =
     predict_pit_window cid lap (double (5 / 2)) (double (16 / 5))"

section \<open>Tables\<close>

text \<open>
  A pandas \<^verbatim>\<open>DataFrame\<close> is a list of column names and a list of rows; a row gives a
  cell to every column name of the table (what it gives to any other name is never read:
  the selection of a column that the table does not have raises). A cell is a
  string, a number, a time stamp (nanoseconds since the epoch, what
  \<^verbatim>\<open>pd.to_datetime\<close> produces), or missing: the not-a-number that pandas puts where
  the file has nothing, and the not-a-time that \<^verbatim>\<open>pd.to_datetime\<close> makes of it. Column
  dtypes are not modelled: every cell carries its own kind. The number in a cell is the
  real number that the float stands for; cells holding an infinity are not modelled.
\<close>

datatype cell = Str string | Num real | Time int | Missing

type_synonym row = "string \<Rightarrow> cell"

record frame =
  columns :: "string list"
  rows :: "row list"

text \<open>
  The comparison \<^verbatim>\<open>==\<close> of pandas on two cells: a missing value is equal to nothing,
  not even to a missing value.
\<close>

fun cell_eq :: "cell \<Rightarrow> cell \<Rightarrow> bool" where
  "cell_eq Missing b = False"
| "cell_eq a Missing = False"
| "cell_eq a b = (a = b)"

text \<open>\<^verbatim>\<open>df.empty\<close>: no columns or no rows.\<close>

definition frame_empty :: "frame \<Rightarrow> bool" where
  "frame_empty df \<longleftrightarrow> columns df = [] \<or> rows df = []"

text \<open>
  \<^verbatim>\<open>left.merge(right, on=on, suffixes=(lsuffix, rsuffix), how='inner')\<close>. A key column
  missing on either side raises \<^verbatim>\<open>KeyError\<close>. A column that is on both sides and is not
  a key gets the side's suffix; a duplicate name that the suffixes create on one side raises
  \<^verbatim>\<open>MergeError\<close> (here \<open>ValueError\<close>, its base class). The result has one row for every
  pair of a left row and a right row that agree on all the keys, in the order of the left
  rows (as pandas documents for an inner join). In a key, a missing value matches a missing
  value (as pandas documents for \<^verbatim>\<open>merge\<close>).
\<close>

definition suffixed :: "string list \<Rightarrow> string \<Rightarrow> string \<Rightarrow> string" where
  "suffixed overlap sfx c = (if c \<in> set overlap then c @ sfx else c)"

definition join_row :: "(string \<times> string) list \<Rightarrow> (string \<times> string) list \<Rightarrow> row \<Rightarrow> row \<Rightarrow> row" where
  "join_row lcols rcols l r =
     (\<lambda>c. case map_of lcols c of
            Some old \<Rightarrow> l old
          | None \<Rightarrow> (case map_of rcols c of Some old \<Rightarrow> r old | None \<Rightarrow> l c))"

definition keys_agree :: "string list \<Rightarrow> row \<Rightarrow> row \<Rightarrow> bool" where
  "keys_agree on l r = list_all (\<lambda>k. l k = r k) on"

definition merge_inner ::
  "frame \<Rightarrow> frame \<Rightarrow> string list \<Rightarrow> string \<Rightarrow> string \<Rightarrow> error + frame" where
  "merge_inner left right on lsuffix rsuffix =
     (let overlap = filter (\<lambda>c. c \<in> set (columns right) \<and> c \<notin> set on) (columns left);
          lcols = map (\<lambda>c. (suffixed overlap lsuffix c, c)) (columns left);
          rcols = map (\<lambda>c. (suffixed overlap rsuffix c, c))
                      (filter (\<lambda>c. c \<notin> set on) (columns right))
      in if \<not> (set on \<subseteq> set (columns left) \<and> set on \<subseteq> set (columns right))
         then Inl KeyError
         else if \<not> distinct (map fst lcols) \<or> \<not> distinct (map fst rcols)
         then Inl ValueError
         else Inr \<lparr>columns = map fst lcols @ map fst rcols,
                   rows = concat (map (\<lambda>l. map (join_row lcols rcols l)
                                              (filter (keys_agree on l) (rows right)))
                                      (rows left))\<rparr>)"

section \<open>Lap time deriver\<close>

text \<open>
  \<^verbatim>\<open>df['timestamp'] = pd.to_datetime(df['timestamp'])\<close>. The parser of pandas is a
  parameter \<open>to_datetime\<close>; \<open>None\<close> is a cell it rejects, which raises. A missing
  value is not parsed: it becomes not-a-time, which is the missing cell again.
\<close>

definition to_datetime_cell :: "(cell \<Rightarrow> int option) \<Rightarrow> cell \<Rightarrow> cell option" where
  "to_datetime_cell to_datetime c =
     (case c of Missing \<Rightarrow> Some Missing | _ \<Rightarrow> map_option Time (to_datetime c))"

definition to_datetime_column :: "(cell \<Rightarrow> int option) \<Rightarrow> frame \<Rightarrow> error + frame" where
  "to_datetime_column to_datetime df =
     (if ''timestamp'' \<notin> set (columns df) then Inl KeyError
      else if list_ex (\<lambda>r. to_datetime_cell to_datetime (r ''timestamp'') = None) (rows df)
      then Inl ValueError
      else Inr (df\<lparr>rows :=
                  map (\<lambda>r. case to_datetime_cell to_datetime (r ''timestamp'') of
                             Some c \<Rightarrow> r(''timestamp'' := c)
                           | None \<Rightarrow> r)
                      (rows df)\<rparr>))"

text \<open>
  \<^verbatim>\<open>(merged['timestamp_end'] - merged['timestamp_start']).dt.total_seconds()\<close> for one
  row: the difference of two time stamps, in seconds; it is missing when one of the two
  is. \<open>None\<close> is a pair of cells that cannot be subtracted.
\<close>

definition total_seconds :: "row \<Rightarrow> cell option" where
  "total_seconds m =
     (case (m ''timestamp_end'', m ''timestamp_start'') of
        (Time e, Time s) \<Rightarrow> Some (Num (of_int (e - s) / 10 ^ 9))
      | (Time e, Missing) \<Rightarrow> Some Missing
      | (Missing, Time s) \<Rightarrow> Some Missing
      | (Missing, Missing) \<Rightarrow> Some Missing
      | _ \<Rightarrow> None)"

text \<open>
  The row of the result: the new column \<^verbatim>\<open>lap_time\<close>, and the end time stamp under
  the name \<^verbatim>\<open>timestamp\<close>; the columns of the result are the four selected ones. The
  filter \<^verbatim>\<open>(lap_time > 30) & (lap_time < 300)\<close> is false on a missing lap time.
\<close>

definition lap_time_row :: "row \<Rightarrow> cell \<Rightarrow> row" where
  "lap_time_row m t =
     m(''lap_time'' := t, ''timestamp'' := m ''timestamp_end'')"

definition lap_time_valid :: "row \<Rightarrow> bool" where
  "lap_time_valid r \<longleftrightarrow> (case r ''lap_time'' of Num t \<Rightarrow> 30 < t \<and> t < 300 | _ \<Rightarrow> False)"

text \<open>
  The body of \<^verbatim>\<open>_calculate_lap_times\<close> inside its \<^verbatim>\<open>try\<close>. A column name that the
  merge leaves twice in the merged table makes the selection a table instead of a column,
  and the next step raises. The lap time of a merged row is read only after the test that
  every row has one.
\<close>

definition calculate_lap_times_body ::
  "(cell \<Rightarrow> int option) \<Rightarrow> frame \<Rightarrow> frame \<Rightarrow> error + frame" where
  "calculate_lap_times_body to_datetime lap_starts lap_ends =
     (case to_datetime_column to_datetime lap_starts of
        Inl e \<Rightarrow> Inl e
      | Inr starts \<Rightarrow>
     (case to_datetime_column to_datetime lap_ends of
        Inl e \<Rightarrow> Inl e
      | Inr ends \<Rightarrow>
     (case merge_inner ends starts [''vehicle_id'', ''lap''] ''_end'' ''_start'' of
        Inl e \<Rightarrow> Inl e
      | Inr merged \<Rightarrow>
          if count_list (columns merged) ''timestamp_end'' \<noteq> 1
             \<or> count_list (columns merged) ''timestamp_start'' \<noteq> 1
          then Inl TypeError
          else if list_ex (\<lambda>m. total_seconds m = None) (rows merged) then Inl TypeError
          else Inr \<lparr>columns = [''vehicle_id'', ''lap'', ''lap_time'', ''timestamp''],
                    rows = filter lap_time_valid
                             (map (\<lambda>m. lap_time_row m (the (total_seconds m)))
                                  (rows merged))\<rparr>)))"

text \<open>
  \<^verbatim>\<open>_calculate_lap_times\<close>: any exception is caught and the method returns
  \<^verbatim>\<open>None\<close>.
\<close>

definition calculate_lap_times :: "(cell \<Rightarrow> int option) \<Rightarrow> frame \<Rightarrow> frame \<Rightarrow> frame option" where
  "calculate_lap_times to_datetime lap_starts lap_ends =
     (case calculate_lap_times_body to_datetime lap_starts lap_ends of
        Inl e \<Rightarrow> None
      | Inr result \<Rightarrow> Some result)"

text \<open>
  The deriver in the words of the specification, to compare the code with: the inner join
  of the end events with the start events on (car id, lap number), the lap time of a
  joined pair as end time stamp minus start time stamp in seconds, and the pairs retained,
  those with \<open>30 < lap_time < 300\<close>. An event whose time stamp is missing has no time.
\<close>

definition event_time :: "(cell \<Rightarrow> int option) \<Rightarrow> row \<Rightarrow> int option" where
  "event_time to_datetime r =
     (case r ''timestamp'' of Missing \<Rightarrow> None | c \<Rightarrow> to_datetime c)"

definition spec_joined :: "frame \<Rightarrow> frame \<Rightarrow> (row \<times> row) list" where
  "spec_joined lap_starts lap_ends =
     [(e, s). e \<leftarrow> rows lap_ends, s \<leftarrow> rows lap_starts,
              e ''vehicle_id'' = s ''vehicle_id'' \<and> e ''lap'' = s ''lap'']"

definition spec_lap_time :: "(cell \<Rightarrow> int option) \<Rightarrow> row \<times> row \<Rightarrow> real option" where
  "spec_lap_time to_datetime p =
     (case (event_time to_datetime (fst p), event_time to_datetime (snd p)) of
        (Some e, Some s) \<Rightarrow> Some (of_int (e - s) / 10 ^ 9)
      | _ \<Rightarrow> None)"

definition spec_retained :: "(cell \<Rightarrow> int option) \<Rightarrow> frame \<Rightarrow> frame \<Rightarrow> (row \<times> row) list" where
  "spec_retained to_datetime lap_starts lap_ends =
     filter (\<lambda>p. case spec_lap_time to_datetime p of
                    Some t \<Rightarrow> 30 < t \<and> t < 300
                  | None \<Rightarrow> False)
            (spec_joined lap_starts lap_ends)"

type_synonym lap_record = "cell \<times> cell \<times> cell option \<times> cell option"

definition spec_lap_record :: "(cell \<Rightarrow> int option) \<Rightarrow> row \<times> row \<Rightarrow> lap_record" where
  "spec_lap_record to_datetime p =
     (fst p ''vehicle_id'', fst p ''lap'',
      map_option Num (spec_lap_time to_datetime p),
      map_option Time (event_time to_datetime (fst p)))"

definition lap_record_of :: "row \<Rightarrow> lap_record" where
  "lap_record_of r = (r ''vehicle_id'', r ''lap'', Some (r ''lap_time''), Some (r ''timestamp''))"

text \<open>
  A small pair of event tables: car A with two laps of 100 and 90 seconds, car B with a
  lap of exactly 30 seconds, car C with an end event only and car D with a start event only.
  Time stamps are numbers of nanoseconds; the example parser rejects strings.
\<close>

definition example_to_datetime :: "cell \<Rightarrow> int option" where
  "example_to_datetime c =
     (case c of Time n \<Rightarrow> Some n | Num x \<Rightarrow> Some \<lfloor>x\<rfloor> | Str s \<Rightarrow> None | Missing \<Rightarrow> None)"

definition example_event :: "string \<Rightarrow> real \<Rightarrow> real \<Rightarrow> row" where
  "example_event v l t =
     (\<lambda>c. Str '''')(''vehicle_id'' := Str v, ''lap'' := Num l, ''timestamp'' := Num t)"

definition example_lap_starts :: frame where
  "example_lap_starts =
     \<lparr>columns = [''vehicle_id'', ''lap'', ''timestamp''],
      rows = [example_event ''A'' 1 0, example_event ''A'' 2 100000000000,
              example_event ''B'' 1 5000000000, example_event ''D'' 1 7000000000]\<rparr>"

definition example_lap_ends :: frame where
  "example_lap_ends =
     \<lparr>columns = [''timestamp'', ''vehicle_id'', ''lap''],
      rows = [example_event ''B'' 1 35000000000, example_event ''A'' 1 100000000000,
              example_event ''A'' 2 190000000000, example_event ''C'' 1 90000000000]\<rparr>"

section \<open>The engine and its schema normalizer\<close>

text \<open>
  An instance of \<^verbatim>\<open>GRCupAnalytics\<close>: the attributes that \<^verbatim>\<open>__init__\<close> sets. A table
  that is not loaded is \<open>None\<close>.
\<close>

record engine =
  track_name :: string
  race_num :: int
  data_dir :: string
  lap_times :: "frame option"
  lap_starts :: "frame option"
  lap_ends :: "frame option"
  telemetry :: "frame option"
  results :: "frame option"
  weather :: "frame option"
  best_laps :: "frame option"

definition init :: "string \<Rightarrow> int \<Rightarrow> engine" where
  "init track race =
     \<lparr>track_name = track, race_num = race, data_dir = ''./'' @ track,
      lap_times = None, lap_starts = None, lap_ends = None, telemetry = None,
      results = None, weather = None, best_laps = None\<rparr>"

text \<open>
  \<^verbatim>\<open>_get_car_id_column\<close>: the first candidate that is a column of the lap-time table,
  else the first column (\<^verbatim>\<open>columns[0]\<close> raises \<^verbatim>\<open>IndexError\<close> on a table without
  columns). \<^verbatim>\<open>_get_lap_time_column\<close> and \<^verbatim>\<open>_get_lap_column\<close> have no fallback.
\<close>

definition get_car_id_column :: "engine \<Rightarrow> error + string option" where
  "get_car_id_column self =
     (case lap_times self of
        None \<Rightarrow> Inr None
      | Some df \<Rightarrow>
          (case find (\<lambda>col_name. col_name \<in> set (columns df))
                  [''CarId'', ''vehicle_id'', ''Car'', ''Vehicle'', ''vehicle_number''] of
             Some col_name \<Rightarrow> Inr (Some col_name)
           | None \<Rightarrow> (case columns df of [] \<Rightarrow> Inl IndexError | c # cs \<Rightarrow> Inr (Some c))))"

definition get_lap_time_column :: "engine \<Rightarrow> string option" where
  "get_lap_time_column self =
     (case lap_times self of
        None \<Rightarrow> None
      | Some df \<Rightarrow>
          find (\<lambda>col_name. col_name \<in> set (columns df))
            [''lap_time'', ''LapTime'', ''laptime'', ''time'', ''Lap Time'', ''elapsed''])"

definition get_lap_column :: "engine \<Rightarrow> string option" where
  "get_lap_column self =
     (case lap_times self of
        None \<Rightarrow> None
      | Some df \<Rightarrow>
          find (\<lambda>col_name. col_name \<in> set (columns df))
            [''Lap'', ''lap'', ''LapNumber'', ''lap_number''])"

text \<open>
  Python's truth value of a column name that may be \<^verbatim>\<open>None\<close> and of a car id: \<^verbatim>\<open>None\<close>,
  the empty string and zero are false, not-a-number is true. Below, the name of a column is taken out of its
  option (\<open>the\<close>) only under the test \<open>named\<close>, as the source uses the variable only
  after \<^verbatim>\<open>if col\<close> or \<^verbatim>\<open>if not col: return\<close>.
\<close>

definition named :: "string option \<Rightarrow> bool" where
  "named col \<longleftrightarrow> (case col of None \<Rightarrow> False | Some c \<Rightarrow> c \<noteq> [])"

fun truthy :: "cell option \<Rightarrow> bool" where
  "truthy None = False"
| "truthy (Some (Str s)) = (s \<noteq> [])"
| "truthy (Some (Num x)) = (x \<noteq> 0)"
| "truthy (Some (Time n)) = True"
| "truthy (Some Missing) = True"

section \<open>Lap statistics analyzer\<close>

text \<open>
  The floats of a column: the number of a cell, not-a-number for a missing cell.
  Arithmetic on a cell that is neither raises.
\<close>

fun num_of :: "cell \<Rightarrow> number option" where
  "num_of (Num x) = Some (Finite x)"
| "num_of Missing = Some NaN"
| "num_of (Str s) = None"
| "num_of (Time n) = None"

definition numeric_values :: "string \<Rightarrow> row list \<Rightarrow> error + number list" where
  "numeric_values col rs =
     (case those (map (\<lambda>r. num_of (r col)) rs) of
        None \<Rightarrow> Inl TypeError
      | Some xs \<Rightarrow> Inr xs)"

text \<open>
  The statistics of pandas skip the values that are not-a-number and return
  not-a-number instead of raising when too few values are left. They are taken exactly:
  the rounding inside pandas is not modelled.
\<close>

fun present :: "number list \<Rightarrow> real list" where
  "present [] = []"
| "present (Finite x # ns) = x # present ns"
| "present (n # ns) = present ns"

fun max_list :: "real list \<Rightarrow> real" where
  "max_list [] = 0"
| "max_list [x] = x"
| "max_list (x # y # ys) = max x (max_list (y # ys))"

definition minimum :: "real list \<Rightarrow> number" where
  "minimum xs = (if xs = [] then NaN else Finite (min_list xs))"

definition maximum :: "real list \<Rightarrow> number" where
  "maximum xs = (if xs = [] then NaN else Finite (max_list xs))"

definition mean :: "real list \<Rightarrow> number" where
  "mean xs = (if xs = [] then NaN else Finite (sum_list xs / of_nat (length xs)))"

text \<open>
  \<^verbatim>\<open>Series.std()\<close>: the sample standard deviation (divisor \<open>n - 1\<close>), not-a-number for
  fewer than two values.
\<close>

definition std :: "real list \<Rightarrow> number" where
  "std xs =
     (if length xs < 2 then NaN
      else Finite (sqrt (sum_list (map (\<lambda>x. (x - sum_list xs / of_nat (length xs))\<^sup>2) xs)
                         / of_nat (length xs - 1))))"

text \<open>
  \<^verbatim>\<open>100 - (std / mean * 100)\<close> on the two statistics, which are finite or not-a-number;
  \<open>s / 0\<close> is not-a-number for \<open>s = 0\<close> and an infinity with the sign of \<open>s\<close> otherwise.
\<close>

definition consistency :: "number \<Rightarrow> number \<Rightarrow> number" where
  "consistency sd m =
     (case (sd, m) of
        (Finite s, Finite mu) \<Rightarrow>
          if mu \<noteq> 0 then Finite (100 - s / mu * 100)
          else if s = 0 then NaN
          else if 0 < s then NegInf else PosInf
      | _ \<Rightarrow> NaN)"

record analysis =
  analysis_car_id :: "cell option"
  total_laps :: nat
  analysis_best_lap :: number
  worst_lap :: number
  analysis_avg_lap :: number
  std_dev :: number
  consistency_score :: number

text \<open>
  The rows that \<^verbatim>\<open>analyze_lap_times\<close> analyses, its local \<^verbatim>\<open>df\<close>: the rows of the
  car when \<^verbatim>\<open>car_id and car_id_col\<close> is true, and all the rows of the table otherwise.
\<close>

definition selected :: "frame \<Rightarrow> string option \<Rightarrow> cell option \<Rightarrow> row list" where
  "selected table car_id_col cid =
     (case (cid, car_id_col) of
        (Some c, Some col) \<Rightarrow>
          if truthy cid \<and> named car_id_col
          then filter (\<lambda>r. cell_eq (r col) c) (rows table)
          else rows table
      | _ \<Rightarrow> rows table)"

text \<open>
  \<^verbatim>\<open>analyze_lap_times(self, car_id=None)\<close>. The result \<open>Inr None\<close> is the \<^verbatim>\<open>None\<close> that the
  method returns when there is nothing to analyse.
\<close>

definition analyze_lap_times :: "engine \<Rightarrow> cell option \<Rightarrow> error + analysis option" where
  "analyze_lap_times self cid =
     (case lap_times self of
        None \<Rightarrow> Inr None
      | Some table \<Rightarrow>
          if frame_empty table then Inr None
          else
            (case get_car_id_column self of
               Inl e \<Rightarrow> Inl e
             | Inr car_id_col \<Rightarrow>
                 let df = selected table car_id_col cid
                 in if df = [] then Inr None
                    else
                      (case get_lap_time_column self of
                         None \<Rightarrow> Inr None
                       | Some lap_time_col \<Rightarrow>
                           if lap_time_col = [] then Inr None
                           else
                             (case numeric_values lap_time_col df of
                                Inl e \<Rightarrow> Inl e
                              | Inr values \<Rightarrow>
                                  let ts = present values
                                  in Inr (Some \<lparr>analysis_car_id = cid,
                                                total_laps = length df,
                                                analysis_best_lap = minimum ts,
                                                worst_lap = maximum ts,
                                                analysis_avg_lap = mean ts,
                                                std_dev = std ts,
                                                consistency_score =
                                                  consistency (std ts) (mean ts)\<rparr>)))))"

text \<open>
  A small lap-time table: car A with a single lap, car B with two equal laps, car C with
  three laps.
\<close>

definition example_lap :: "string \<Rightarrow> real \<Rightarrow> real \<Rightarrow> row" where
  "example_lap v l t =
     (\<lambda>c. Str '''')(''vehicle_id'' := Str v, ''lap'' := Num l, ''lap_time'' := Num t)"

definition example_lap_times :: frame where
  "example_lap_times =
     \<lparr>columns = [''vehicle_id'', ''lap'', ''lap_time''],
      rows = [example_lap ''A'' 1 100, example_lap ''B'' 1 90, example_lap ''C'' 1 95,
              example_lap ''B'' 2 90, example_lap ''C'' 2 94,
              example_lap ''C'' 3 93]\<rparr>"

definition example_engine :: engine where
  "example_engine = (init ''vir'' 1)\<lparr>lap_times := Some example_lap_times\<rparr>"



section \<open>Strategic insight generator\<close>

text \<open>
  \<^verbatim>\<open>Series.unique()\<close>: the distinct values in the order of their first occurrence; the
  missing value counts as one value.
\<close>

fun unique :: "'a list \<Rightarrow> 'a list" where
  "unique [] = []"
| "unique (x # xs) = x # unique (filter (\<lambda>y. y \<noteq> x) xs)"

text \<open>
  A loop that appends to a list and whose body may raise: the first error ends it.
\<close>

fun collect :: "('a \<Rightarrow> error + 'b list) \<Rightarrow> 'a list \<Rightarrow> error + 'b list" where
  "collect f [] = Inr []"
| "collect f (x # xs) =
     (case f x of
        Inl e \<Rightarrow> Inl e
      | Inr ys \<Rightarrow> (case collect f xs of Inl e \<Rightarrow> Inl e | Inr zs \<Rightarrow> Inr (ys @ zs)))"

text \<open>
  An insight. The message is an f-string of the source: its template and the values that
  fill it.
\<close>

datatype message_text =
    PitNow cell string number
  | PitWindowOpening cell int
  | LapTimesDegrading cell
  | ImprovingPace cell

record insight =
  priority :: string
  kind :: string
  message :: message_text
  insight_car_id :: cell

text \<open>The body of the first loop, for one car.\<close>

definition pit_insight :: "int \<Rightarrow> cell \<Rightarrow> error + insight list" where
  "pit_insight lap cid =
     (case predict_pit_window_default cid lap of
        Inl e \<Rightarrow> Inl e
      | Inr pit_rec \<Rightarrow>
          Inr (if urgency pit_rec = ''critical''
               then [\<lparr>priority = ''high'', kind = ''pit_strategy'',
                      message = PitNow cid (critical_factor pit_rec) (laps_until_critical pit_rec),
                      insight_car_id = cid\<rparr>]
               else if urgency pit_rec = ''high''
               then [\<lparr>priority = ''medium'', kind = ''pit_strategy'',
                      message = PitWindowOpening cid (optimal_pit_lap pit_rec - lap),
                      insight_car_id = cid\<rparr>]
               else []))"

text \<open>
  The body of the second loop, for one car. The two comparisons of the lap column with
  numbers raise when a cell of the column is neither a number nor missing, and so does
  the arithmetic on the first and the last of the recent lap times; on a missing cell the
  comparisons are false. The two sums are sums of floats, and \<^verbatim>\<open>0.3\<close> is the float
  nearest to it. The lap numbers are compared exactly.
\<close>

definition in_window :: "int \<Rightarrow> cell \<Rightarrow> bool" where
  "in_window lap c =
     (case c of Num l \<Rightarrow> of_int (lap - 5) \<le> l \<and> l \<le> of_int lap | _ \<Rightarrow> False)"

definition trend_insight ::
  "frame \<Rightarrow> string \<Rightarrow> string \<Rightarrow> string \<Rightarrow> int \<Rightarrow> cell \<Rightarrow> error + insight list" where
  "trend_insight table car_id_col lap_col lap_time_col lap cid =
     (case numeric_values lap_col (rows table) of
        Inl e \<Rightarrow> Inl e
      | Inr laps \<Rightarrow>
          let recent_laps =
                filter (\<lambda>r. cell_eq (r car_id_col) cid \<and> in_window lap (r lap_col))
                       (rows table)
          in if 3 \<le> length recent_laps
             then
               (case (num_of (hd recent_laps lap_time_col),
                      num_of (last recent_laps lap_time_col)) of
                  (Some first, Some final) \<Rightarrow>
                    Inr (if float_lt (float_add first (double (1 / 2))) final
                         then [\<lparr>priority = ''medium'', kind = ''performance'',
                                message = LapTimesDegrading cid, insight_car_id = cid\<rparr>]
                         else if float_lt final (float_sub first (double (3 / 10)))
                         then [\<lparr>priority = ''low'', kind = ''performance'',
                                message = ImprovingPace cid, insight_car_id = cid\<rparr>]
                         else [])
                | _ \<Rightarrow> Inl TypeError)
             else Inr [])"

definition generate_race_insights :: "engine \<Rightarrow> int \<Rightarrow> error + insight list" where
  "generate_race_insights self lap =
     (case lap_times self of
        None \<Rightarrow> Inr []
      | Some table \<Rightarrow>
          if frame_empty table then Inr []
          else
            (case get_car_id_column self of
               Inl e \<Rightarrow> Inl e
             | Inr car_id_col \<Rightarrow>
                 let lap_col = get_lap_column self;
                     lap_time_col = get_lap_time_column self
                 in if \<not> named car_id_col then Inr []
                    else
                      let car_ids = unique (map (\<lambda>r. r (the car_id_col)) (rows table))
                      in (case collect (pit_insight lap) (take 5 car_ids) of
                            Inl e \<Rightarrow> Inl e
                          | Inr pit \<Rightarrow>
                              if named lap_col \<and> named lap_time_col
                              then
                                (case collect (trend_insight table (the car_id_col) (the lap_col)
                                                 (the lap_time_col) lap)
                                              (take 3 car_ids) of
                                   Inl e \<Rightarrow> Inl e
                                 | Inr trend \<Rightarrow> Inr (pit @ trend))
                              else Inr pit)))"

section \<open>Race snapshot exporter\<close>

text \<open>
  The dictionaries of the snapshot. Where a key of the source is already the name of a
  field above, the field has another name: \<open>car_name\<close> is the key \<^verbatim>\<open>car_id\<close> of a car
  entry (the string of the car id) and \<open>race_lap\<close> is the key \<^verbatim>\<open>current_lap\<close> of the
  snapshot; in an insight, \<open>kind\<close> is the key \<^verbatim>\<open>type\<close> and \<open>insight_car_id\<close> the key
  \<^verbatim>\<open>car_id\<close>.
\<close>

record car_data =
  car_name :: string
  position :: "int option"
  last_lap :: number
  best_lap :: number
  avg_lap :: number
  pit_recommendation :: "cell recommendation"

record race_state =
  timestamp :: string
  race_lap :: int
  track :: string
  cars :: "car_data list"
  insights :: "insight list"

text \<open>
  \<^verbatim>\<open>car_laps.tail(1)\<close>: the last row, as a table of one row.
\<close>

definition tail1 :: "'a list \<Rightarrow> 'a list" where
  "tail1 xs = (if xs = [] then [] else [last xs])"

text \<open>
  The body of the loop over the cars. \<open>str_of\<close> is Python's \<^verbatim>\<open>str\<close> on a car id.
  The minimum and the mean skip the lap times that are missing, and are not-a-number
  when all of them are.
\<close>

definition car_entry ::
  "(cell \<Rightarrow> string) \<Rightarrow> frame \<Rightarrow> string \<Rightarrow> string \<Rightarrow> string option \<Rightarrow> int \<Rightarrow> cell
     \<Rightarrow> error + car_data list" where
  "car_entry str_of table car_id_col lap_time_col lap_col lap cid =
     (let car_laps = filter (\<lambda>r. cell_eq (r car_id_col) cid) (rows table);
          current_lap_data =
            (if named lap_col
             then filter (\<lambda>r. cell_eq (r (the lap_col)) (Num (of_int lap))) car_laps
             else tail1 car_laps)
      in if current_lap_data = [] then Inr []
         else
           (case predict_pit_window_default cid lap of
              Inl e \<Rightarrow> Inl e
            | Inr pit_rec \<Rightarrow>
                (case num_of (hd current_lap_data lap_time_col) of
                   None \<Rightarrow> Inl TypeError
                 | Some final \<Rightarrow>
                     (case numeric_values lap_time_col car_laps of
                        Inl e \<Rightarrow> Inl e
                      | Inr values \<Rightarrow>
                          Inr [\<lparr>car_name = str_of cid, position = None, last_lap = final,
                                best_lap = minimum (present values),
                                avg_lap = mean (present values),
                                pit_recommendation = pit_rec\<rparr>]))))"

text \<open>
  \<^verbatim>\<open>cars.sort(key=lambda x: x['best_lap'])\<close>. Python sorts by comparing keys with
  \<^verbatim>\<open><\<close>. On finite keys that is a total order and the result is the stable sort. A key
  that is not-a-number is less than nothing and nothing is less than it, and what the
  sort leaves then depends on its algorithm: it starts by looking for the longest run at
  the head of the list in which no element is less than the one before it, and when that
  run is the whole list it leaves the list as it is. Beyond that case the algorithm is not
  modelled and its result is a parameter, \<open>merged\<close>.
\<close>

fun descent :: "number list \<Rightarrow> bool" where
  "descent (x # y # ys) = (float_lt y x \<or> descent (y # ys))"
| "descent ys = False"

fun is_finite :: "number \<Rightarrow> bool" where
  "is_finite (Finite x) = True"
| "is_finite n = False"

fun real_of :: "number \<Rightarrow> real" where
  "real_of (Finite x) = x"
| "real_of n = 0"

definition sort_by_best_lap :: "(car_data list \<Rightarrow> car_data list) \<Rightarrow> car_data list \<Rightarrow> car_data list" where
  "sort_by_best_lap merged cs =
     (if list_all (\<lambda>c. is_finite (best_lap c)) cs then sort_key (\<lambda>c. real_of (best_lap c)) cs
      else if \<not> descent (map best_lap cs) then cs
      else merged cs)"

text \<open>
  \<^verbatim>\<open>for i, car in enumerate(cars): car['position'] = i + 1\<close>.
\<close>

definition add_positions :: "car_data list \<Rightarrow> car_data list" where
  "add_positions cs = map (\<lambda>(i, car). car\<lparr>position := Some (int i + 1)\<rparr>) (enumerate 0 cs)"

text \<open>
  \<^verbatim>\<open>export_live_data(self, current_lap, output_file)\<close>. The clock, Python's \<^verbatim>\<open>str\<close>,
  the writing of the JSON file (which may raise) and the part of the sort that is not
  modelled are parameters.
\<close>

definition export_live_data ::
  "string \<Rightarrow> (cell \<Rightarrow> string) \<Rightarrow> (race_state \<Rightarrow> error option)
     \<Rightarrow> (car_data list \<Rightarrow> car_data list) \<Rightarrow> engine \<Rightarrow> int
     \<Rightarrow> error + race_state option" where
  "export_live_data now str_of dump merged self lap =
     (case lap_times self of
        None \<Rightarrow> Inr None
      | Some table \<Rightarrow>
          if frame_empty table then Inr None
          else
            (case get_car_id_column self of
               Inl e \<Rightarrow> Inl e
             | Inr car_id_col \<Rightarrow>
                 let lap_time_col = get_lap_time_column self;
                     lap_col = get_lap_column self
                 in if \<not> named car_id_col \<or> \<not> named lap_time_col then Inr None
                    else
                      let car_ids = unique (map (\<lambda>r. r (the car_id_col)) (rows table))
                      in (case collect (car_entry str_of table (the car_id_col)
                                          (the lap_time_col) lap_col lap) car_ids of
                            Inl e \<Rightarrow> Inl e
                          | Inr entries \<Rightarrow>
                              (case generate_race_insights self lap of
                                 Inl e \<Rightarrow> Inl e
                               | Inr found \<Rightarrow>
                                   let state = \<lparr>timestamp = now, race_lap = lap,
                                                track = track_name self,
                                                cars = add_positions
                                                         (sort_by_best_lap merged entries),
                                                insights = found\<rparr>
                                   in (case dump state of
                                         Some e \<Rightarrow> Inl e
                                       | None \<Rightarrow> Inr (Some state))))))"

text \<open>
  A lap-time table in which car B has a row for lap 1 and no lap time.
\<close>

definition example_missing_engine :: engine where
  "example_missing_engine =
     (init ''vir'' 1)
       \<lparr>lap_times :=
          Some \<lparr>columns = [''vehicle_id'', ''lap'', ''lap_time''],
                rows = [example_lap ''A'' 1 95,
                        (example_lap ''B'' 1 0)(''lap_time'' := Missing),
                        example_lap ''C'' 1 90, example_lap ''D'' 1 93]\<rparr>\<rparr>"

section \<open>Loading\<close>

text \<open>
  What \<^verbatim>\<open>load_data\<close> uses of the world outside the engine: \<open>glob dir pattern\<close> is
  \<^verbatim>\<open>list(Path(dir).glob(pattern))\<close>, \<open>read_csv\<close> is \<^verbatim>\<open>pd.read_csv\<close>, which may raise,
  \<open>parse_datetime\<close> is the parser behind \<^verbatim>\<open>pd.to_datetime\<close> and \<open>pivot_table\<close> is the
  pivot of \<^verbatim>\<open>_pivot_telemetry\<close>, which may raise. Printing is not modelled.
\<close>

record host =
  glob :: "string \<Rightarrow> string \<Rightarrow> string list"
  read_csv :: "string \<Rightarrow> error + frame"
  parse_datetime :: "cell \<Rightarrow> int option"
  pivot_table :: "frame \<Rightarrow> error + frame"

text \<open>The decimal form of an integer, as an f-string prints it.\<close>

definition digit :: "nat \<Rightarrow> char" where
  "digit d = ''0123456789'' ! d"

fun str_nat :: "nat \<Rightarrow> string" where
  "str_nat n =
     (if n < 10 then [digit n]
      else str_nat (n div 10) @ [digit (n mod 10)])"

declare str_nat.simps [simp del]

definition str_int :: "int \<Rightarrow> string" where
  "str_int i = (if i < 0 then CHR ''-'' # str_nat (nat (- i)) else str_nat (nat i))"

text \<open>The glob patterns of each table, in the order in which the source tries them.\<close>

definition lap_time_patterns :: "engine \<Rightarrow> string list" where
  "lap_time_patterns self =
     [''R'' @ str_int (race_num self) @ ''_'' @ track_name self @ ''_lap_time.csv'',
      track_name self @ ''*lap_time_R'' @ str_int (race_num self) @ ''.csv'',
      ''R'' @ str_int (race_num self) @ ''_'' @ track_name self @ ''*lap_time.csv'',
      ''*lap_time*R'' @ str_int (race_num self) @ ''*.csv'']"

definition lap_start_patterns :: "engine \<Rightarrow> string list" where
  "lap_start_patterns self =
     [''R'' @ str_int (race_num self) @ ''_'' @ track_name self @ ''*lap_start.csv'',
      track_name self @ ''*lap_start_time_R'' @ str_int (race_num self) @ ''.csv'',
      ''*lap_start*R'' @ str_int (race_num self) @ ''*.csv'']"

definition lap_end_patterns :: "engine \<Rightarrow> string list" where
  "lap_end_patterns self =
     [''R'' @ str_int (race_num self) @ ''_'' @ track_name self @ ''*lap_end.csv'',
      track_name self @ ''*lap_end_time_R'' @ str_int (race_num self) @ ''.csv'',
      ''*lap_end*R'' @ str_int (race_num self) @ ''*.csv'']"

definition telemetry_patterns :: "engine \<Rightarrow> string list" where
  "telemetry_patterns self =
     [''R'' @ str_int (race_num self) @ ''_'' @ track_name self @ ''*telemetry*.csv'']"

definition results_patterns :: "engine \<Rightarrow> string list" where
  "results_patterns self =
     [''*Official*Anonymized.CSV'',
      ''*Results*Race*'' @ str_int (race_num self) @ ''*Anonymized.CSV'']"

definition weather_patterns :: "engine \<Rightarrow> string list" where
  "weather_patterns self = [''*Weather*Race*'' @ str_int (race_num self) @ ''*.CSV'']"

definition best_laps_patterns :: "engine \<Rightarrow> string list" where
  "best_laps_patterns self = [''*Best*10*Race*'' @ str_int (race_num self) @ ''*.CSV'']"

text \<open>
  The files of the first pattern that matches anything, and the table read from the first
  of them; \<open>Inr None\<close> when no pattern matches (the source prints a warning and goes on).
\<close>

fun first_match :: "host \<Rightarrow> string \<Rightarrow> string list \<Rightarrow> string list" where
  "first_match h dir [] = []"
| "first_match h dir (p # ps) =
     (case glob h dir p of [] \<Rightarrow> first_match h dir ps | f # fs \<Rightarrow> f # fs)"

definition read_first :: "host \<Rightarrow> string \<Rightarrow> string list \<Rightarrow> error + frame option" where
  "read_first h dir ps =
     (case first_match h dir ps of
        [] \<Rightarrow> Inr None
      | f # fs \<Rightarrow> (case read_csv h f of Inl e \<Rightarrow> Inl e | Inr df \<Rightarrow> Inr (Some df)))"

text \<open>
  The sections of the \<^verbatim>\<open>try\<close> block, each a state transformer that may raise. A section
  assigns its attribute only after its file is read, so a section that raises leaves the
  engine as it found it.
\<close>

definition load_lap_times :: "host \<Rightarrow> engine \<Rightarrow> error + engine" where
  "load_lap_times h self =
     (case read_first h (data_dir self) (lap_time_patterns self) of
        Inl e \<Rightarrow> Inl e
      | Inr None \<Rightarrow> Inr self
      | Inr (Some df) \<Rightarrow> Inr (self\<lparr>lap_times := Some df\<rparr>))"

definition load_lap_starts :: "host \<Rightarrow> engine \<Rightarrow> error + engine" where
  "load_lap_starts h self =
     (case read_first h (data_dir self) (lap_start_patterns self) of
        Inl e \<Rightarrow> Inl e
      | Inr None \<Rightarrow> Inr self
      | Inr (Some df) \<Rightarrow> Inr (self\<lparr>lap_starts := Some df\<rparr>))"

definition load_lap_ends :: "host \<Rightarrow> engine \<Rightarrow> error + engine" where
  "load_lap_ends h self =
     (case read_first h (data_dir self) (lap_end_patterns self) of
        Inl e \<Rightarrow> Inl e
      | Inr None \<Rightarrow> Inr self
      | Inr (Some df) \<Rightarrow> Inr (self\<lparr>lap_ends := Some df\<rparr>))"

text \<open>
  \<^verbatim>\<open>if self.lap_starts is not None and self.lap_ends is not None:
  self.lap_times = self._calculate_lap_times()\<close>.
\<close>

definition derive_lap_times :: "host \<Rightarrow> engine \<Rightarrow> error + engine" where
  "derive_lap_times h self =
     (case (lap_starts self, lap_ends self) of
        (Some starts, Some ends) \<Rightarrow>
          Inr (self\<lparr>lap_times := calculate_lap_times (parse_datetime h) starts ends\<rparr>)
      | _ \<Rightarrow> Inr self)"

text \<open>
  \<^verbatim>\<open>_pivot_telemetry\<close> catches every exception of the pivot and returns the raw table.
\<close>

definition pivot_telemetry :: "host \<Rightarrow> frame \<Rightarrow> frame" where
  "pivot_telemetry h raw_telemetry =
     (case pivot_table h raw_telemetry of Inl e \<Rightarrow> raw_telemetry | Inr pivoted \<Rightarrow> pivoted)"

definition load_telemetry :: "host \<Rightarrow> engine \<Rightarrow> error + engine" where
  "load_telemetry h self =
     (case read_first h (data_dir self) (telemetry_patterns self) of
        Inl e \<Rightarrow> Inl e
      | Inr None \<Rightarrow> Inr self
      | Inr (Some raw) \<Rightarrow> Inr (self\<lparr>telemetry := Some (pivot_telemetry h raw)\<rparr>))"

definition load_results :: "host \<Rightarrow> engine \<Rightarrow> error + engine" where
  "load_results h self =
     (case read_first h (data_dir self) (results_patterns self) of
        Inl e \<Rightarrow> Inl e
      | Inr None \<Rightarrow> Inr self
      | Inr (Some df) \<Rightarrow> Inr (self\<lparr>results := Some df\<rparr>))"

definition load_weather :: "host \<Rightarrow> engine \<Rightarrow> error + engine" where
  "load_weather h self =
     (case read_first h (data_dir self) (weather_patterns self) of
        Inl e \<Rightarrow> Inl e
      | Inr None \<Rightarrow> Inr self
      | Inr (Some df) \<Rightarrow> Inr (self\<lparr>weather := Some df\<rparr>))"

definition load_best_laps :: "host \<Rightarrow> engine \<Rightarrow> error + engine" where
  "load_best_laps h self =
     (case read_first h (data_dir self) (best_laps_patterns self) of
        Inl e \<Rightarrow> Inl e
      | Inr None \<Rightarrow> Inr self
      | Inr (Some df) \<Rightarrow> Inr (self\<lparr>best_laps := Some df\<rparr>))"

text \<open>
  The \<^verbatim>\<open>try\<close> block: the sections in order, up to the first that raises. The result is
  the engine as the block leaves it and the exception, if one was raised.
\<close>

fun step :: "(engine \<Rightarrow> error + engine) \<Rightarrow> engine \<times> error option \<Rightarrow> engine \<times> error option" where
  "step f (self, Some e) = (self, Some e)"
| "step f (self, None) =
     (case f self of Inl e \<Rightarrow> (self, Some e) | Inr self' \<Rightarrow> (self', None))"

definition sections :: "host \<Rightarrow> (engine \<Rightarrow> error + engine) list" where
  "sections h =
     [load_lap_times h, load_lap_starts h, load_lap_ends h, derive_lap_times h,
      load_telemetry h, load_results h, load_weather h, load_best_laps h]"

definition load_data_body :: "host \<Rightarrow> engine \<Rightarrow> engine \<times> error option" where
  "load_data_body h self =
     foldl (\<lambda>state section. step section state) (self, None) (sections h)"

text \<open>
  \<^verbatim>\<open>load_data\<close>: \<^verbatim>\<open>True\<close> at the end of the \<^verbatim>\<open>try\<close> block, \<^verbatim>\<open>False\<close> from the
  \<^verbatim>\<open>except Exception\<close> handler. The engine is returned with the flag, since the method
  changes it.
\<close>

definition load_data :: "host \<Rightarrow> engine \<Rightarrow> engine \<times> bool" where
  "load_data h self =
     (case load_data_body h self of
        (self', None) \<Rightarrow> (self', True)
      | (self', Some e) \<Rightarrow> (self', False))"

text \<open>
  A directory that holds a direct lap-time file, a lap-start file and a lap-end file for
  race 1 at \<open>vir\<close>, and nothing else.
\<close>

definition example_host :: host where
  "example_host =
     \<lparr>glob = (\<lambda>dir pattern.
               if dir = ''./vir'' \<and> pattern = ''R1_vir_lap_time.csv''
               then [''./vir/R1_vir_lap_time.csv'']
               else if dir = ''./vir'' \<and> pattern = ''R1_vir*lap_start.csv''
               then [''./vir/R1_vir_lap_start.csv'']
               else if dir = ''./vir'' \<and> pattern = ''R1_vir*lap_end.csv''
               then [''./vir/R1_vir_lap_end.csv'']
               else []),
      read_csv = (\<lambda>file.
               if file = ''./vir/R1_vir_lap_time.csv'' then Inr example_lap_times
               else if file = ''./vir/R1_vir_lap_start.csv'' then Inr example_lap_starts
               else if file = ''./vir/R1_vir_lap_end.csv'' then Inr example_lap_ends
               else Inl OSError),
      parse_datetime = example_to_datetime,
      pivot_table = (\<lambda>raw. Inl KeyError)\<rparr>"

text \<open>An empty directory, and a directory whose only file cannot be read.\<close>

definition empty_host :: host where
  "empty_host =
     \<lparr>glob = (\<lambda>dir pattern. []), read_csv = (\<lambda>file. Inl OSError),
      parse_datetime = example_to_datetime, pivot_table = (\<lambda>raw. Inl KeyError)\<rparr>"

definition broken_host :: host where
  "broken_host =
     \<lparr>glob = (\<lambda>dir pattern. if pattern = ''*Weather*Race*1*.CSV''
                             then [''./vir/26_Weather_Race 1.CSV''] else []),
      read_csv = (\<lambda>file. Inl ValueError),
      parse_datetime = example_to_datetime, pivot_table = (\<lambda>raw. Inl KeyError)\<rparr>"

section \<open>Properties of floats\<close>

lemma bitlen_numeral_simps:
  "bitlen 1 = 1"
  "bitlen (numeral (Num.Bit0 k)) = bitlen (numeral k) + 1"
  "bitlen (numeral (Num.Bit1 k)) = bitlen (numeral k) + 1"
  by (subst compute_bitlen, simp)+

lemmas float_defs = double_def binade_def round_half_even_def bitlen_numeral_simps Let_def
  float_sub_def float_of_int_def

lemmas predictor_defs = predict_pit_window_def predict_pit_window_default_def laps_on_fuel_def
  laps_on_tires_def fuel_remaining_def tire_condition_def critical_def urgency_of_def

lemma binade_le:
  assumes "x \<noteq> 0"
  shows "2 powi binade x \<le> \<bar>x\<bar>"
proof (cases "1 \<le> \<bar>x\<bar>")
  case True
  define m where "m = \<lfloor>\<bar>x\<bar>\<rfloor>"
  from True have m: "0 < m" by (simp add: m_def)
  then have "bitlen m \<noteq> 0" by (simp add: bitlen_eq_zero_iff)
  with bitlen_nonneg [of m] have k: "0 \<le> bitlen m - 1" by simp
  from bitlen_bounds [OF m] have "(2::int) ^ nat (bitlen m - 1) \<le> m" ..
  then have "(2::real) ^ nat (bitlen m - 1) \<le> of_int m"
    by (metis of_int_le_iff of_int_numeral of_int_power)
  also have "\<dots> \<le> \<bar>x\<bar>" by (simp add: m_def)
  finally have "(2::real) ^ nat (bitlen m - 1) \<le> \<bar>x\<bar>" .
  moreover have "binade x = bitlen m - 1" using True by (simp add: binade_def m_def)
  ultimately show ?thesis using k by (simp add: power_int_def)
next
  case False
  define N where "N = \<lceil>1 / \<bar>x\<bar>\<rceil>"
  define k where "k = bitlen (N - 1)"
  from False assms have x: "0 < \<bar>x\<bar>" "\<bar>x\<bar> < 1" by simp_all
  then have "1 < 1 / \<bar>x\<bar>" by simp
  then have "1 < N" unfolding N_def by linarith
  then have pos: "0 < N - 1" by simp
  from bitlen_bounds [OF pos] have "N - 1 < 2 ^ nat k" by (simp add: k_def)
  then have "N \<le> 2 ^ nat k" by simp
  then have "(of_int N :: real) \<le> 2 ^ nat k"
    by (metis of_int_le_iff of_int_numeral of_int_power)
  moreover have "1 / \<bar>x\<bar> \<le> of_int N" unfolding N_def by linarith
  ultimately have "1 / \<bar>x\<bar> \<le> 2 ^ nat k" by linarith
  with x have "1 / 2 ^ nat k \<le> \<bar>x\<bar>" by (simp add: field_simps)
  moreover have "binade x = - k" using False by (simp add: binade_def N_def k_def)
  moreover have "0 \<le> k" unfolding k_def by (rule bitlen_nonneg)
  ultimately show ?thesis
    by (cases "k = 0") (simp_all add: power_int_def inverse_eq_divide power_one_over)
qed

lemma round_half_even_close: "\<bar>of_int (round_half_even y) - y\<bar> \<le> 1 / 2"
proof -
  have "of_int \<lfloor>y\<rfloor> \<le> y" and "y < of_int \<lfloor>y\<rfloor> + 1"
    by linarith+
  then show ?thesis
    by (auto simp: round_half_even_def Let_def)
qed

text \<open>
  Rounding stays finite well inside the range of the floats, and at most doubles the
  magnitude (up to the smallest spacing).
\<close>

lemma double_bounded:
  assumes "\<bar>x\<bar> \<le> B" and "1 \<le> B" and "B \<le> 2 ^ 1022"
  shows "\<exists>y. double x = Finite y \<and> \<bar>y\<bar> \<le> 10 * B"
proof (cases "x = 0")
  case True
  with assms show ?thesis by (simp add: double_def)
next
  case False
  define q where "q = max (binade x - 52) (- 1074)"
  define p :: real where "p = 2 powi q"
  define y where "y = of_int (round_half_even (x / p)) * p"
  have p: "0 < p" by (simp add: p_def)
  have "p \<le> max \<bar>x\<bar> 1"
  proof (cases "binade x - 52 \<le> - 1074")
    case True
    then have "q = - 1074" by (simp add: q_def)
    then have "p \<le> 1" by (simp add: p_def power_int_def power_le_one)
    then show ?thesis by simp
  next
    case False
    then have "q = binade x - 52" by (simp add: q_def)
    then have "p \<le> 2 powi binade x"
      unfolding p_def by (intro power_int_increasing) simp_all
    also have "\<dots> \<le> \<bar>x\<bar>" using \<open>x \<noteq> 0\<close> by (rule binade_le)
    finally show ?thesis by simp
  qed
  with assms have pB: "p \<le> B" by simp
  have "\<bar>of_int (round_half_even (x / p)) - x / p\<bar> \<le> 1 / 2"
    by (rule round_half_even_close)
  then have "\<bar>of_int (round_half_even (x / p)) - x / p\<bar> * p \<le> 1 / 2 * p"
    using p by (intro mult_right_mono) simp_all
  then have "\<bar>(of_int (round_half_even (x / p)) - x / p) * p\<bar> \<le> p / 2"
    using p by (simp add: abs_mult)
  then have "\<bar>y - x\<bar> \<le> p / 2"
    using p by (simp add: y_def algebra_simps)
  with pB assms have y: "\<bar>y\<bar> \<le> 2 * B" by linarith
  with assms have "\<bar>y\<bar> < 2 ^ 1024" by simp
  then have "double x = Finite y"
    using False by (simp add: double_def Let_def q_def [symmetric] p_def [symmetric] y_def [symmetric])
  with y assms show ?thesis by simp
qed

section \<open>Properties of the resource depletion predictor\<close>

lemma max_py_int_floor:
  "max 1 (if 0 \<le> x then \<lfloor>x\<rfloor> else \<lceil>x::real\<rceil>) = max 1 \<lfloor>x\<rfloor>"
proof (cases "0 \<le> x")
  case True
  then show ?thesis by simp
next
  case False
  then have "\<lceil>x\<rceil> \<le> 0" and "\<lfloor>x\<rfloor> \<le> 0"
    by (simp_all add: ceiling_le_iff floor_le_iff)
  with False show ?thesis by (simp add: max_def)
qed

lemma float_of_int_Inr:
  assumes "float_of_int n = Inr nf"
  shows "\<exists>y. nf = Finite y"
  using assms by (cases "double (of_int n)") (auto simp: float_of_int_def)

text \<open>Truncation succeeds on finite floats only.\<close>

lemma py_int_float_sub:
  assumes "py_int (float_sub a (Finite d)) = Inr k"
  shows "\<exists>x y. a = Finite x \<and> float_sub a (Finite d) = Finite y \<and>
           k = (if 0 \<le> y then \<lfloor>y\<rfloor> else \<lceil>y\<rceil>)"
proof (cases a)
  case (Finite x)
  with assms show ?thesis
    by (cases "float_sub a (Finite d)") auto
qed (use assms in \<open>simp_all add: float_sub_def\<close>)

text \<open>When the function returns, and what.\<close>

lemma predict_pit_window_Inr:
  assumes "predict_pit_window c n f t = Inr r"
  obtains nf k where "float_of_int n = Inr nf" and "f \<noteq> Finite 0" and "t \<noteq> Finite 0"
    and "py_int (float_sub (snd (critical (laps_on_fuel nf f) (laps_on_tires nf t)))
                   (Finite (5 / 2))) = Inr k"
    and "r = \<lparr>car_id = c, current_lap = n,
              fuel_remaining_pct = py_round1 (fuel_remaining nf f),
              tire_condition_pct = py_round1 (tire_condition nf t),
              critical_factor = fst (critical (laps_on_fuel nf f) (laps_on_tires nf t)),
              laps_until_critical =
                py_round1 (snd (critical (laps_on_fuel nf f) (laps_on_tires nf t))),
              optimal_pit_lap = n + max 1 k,
              pit_window = (n + max 1 k - 2, n + max 1 k + 2),
              urgency = urgency_of (snd (critical (laps_on_fuel nf f) (laps_on_tires nf t)))\<rparr>"
  using assms
  by (simp add: predict_pit_window_def Let_def split: sum.splits prod.splits if_splits)

lemma predict_pit_window_returns_if:
  assumes "float_of_int n = Inr nf" and "f \<noteq> Finite 0" and "t \<noteq> Finite 0"
    and "py_int (float_sub (snd (critical (laps_on_fuel nf f) (laps_on_tires nf t)))
                   (Finite (5 / 2))) = Inr k"
  shows "\<exists>r. predict_pit_window c n f t = Inr r"
  using assms by (auto simp: predict_pit_window_def Let_def split: prod.splits)

text \<open>
  Laps of a magnitude up to \<open>10\<^sup>1\<^sup>0\<^sup>0\<close> and rates of a magnitude between \<open>10\<^sup>-\<^sup>1\<^sup>0\<^sup>0\<close> and
  \<open>10\<^sup>1\<^sup>0\<^sup>0\<close> keep every intermediate value finite.
\<close>

lemma laps_bounded:
  assumes a: "\<bar>a\<bar> \<le> 10 ^ 101" and x: "1 / 10 ^ 100 \<le> \<bar>x\<bar>" "\<bar>x\<bar> \<le> 10 ^ 100"
  shows "\<exists>l. float_div (float_sub (Finite 100) (float_mul (Finite a) (Finite x))) (Finite x)
               = Finite l \<and> \<bar>l\<bar> \<le> 10 ^ 305"
proof -
  from x have nz: "x \<noteq> 0" by auto
  have "\<bar>a * x\<bar> \<le> 10 ^ 101 * 10 ^ 100"
    unfolding abs_mult using a x by (intro mult_mono) simp_all
  then have "\<bar>a * x\<bar> \<le> 10 ^ 201" by simp
  from double_bounded [OF this]
  obtain b where b: "double (a * x) = Finite b" "\<bar>b\<bar> \<le> 10 ^ 202" by auto
  have "\<bar>100 + - b\<bar> \<le> 10 ^ 203" using b by simp
  from double_bounded [OF this]
  obtain d where d: "double (100 + - b) = Finite d" "\<bar>d\<bar> \<le> 10 ^ 204" by auto
  have "\<bar>d / x\<bar> = \<bar>d\<bar> * (1 / \<bar>x\<bar>)" by simp
  also have "\<dots> \<le> 10 ^ 204 * 10 ^ 100"
    using d x nz by (intro mult_mono) (simp_all add: field_simps)
  finally have "\<bar>d / x\<bar> \<le> 10 ^ 304" by simp
  from double_bounded [OF this]
  obtain l where l: "double (d / x) = Finite l" "\<bar>l\<bar> \<le> 10 ^ 305" by auto
  from b d l nz show ?thesis by (simp add: float_sub_def)
qed

lemma predict_pit_window_returns:
  assumes n: "\<bar>n\<bar> \<le> 10 ^ 100"
    and x: "1 / 10 ^ 100 \<le> \<bar>x\<bar>" "\<bar>x\<bar> \<le> 10 ^ 100"
    and y: "1 / 10 ^ 100 \<le> \<bar>y\<bar>" "\<bar>y\<bar> \<le> 10 ^ 100"
  shows "\<exists>r. predict_pit_window c n (Finite x) (Finite y) = Inr r"
proof -
  have "\<bar>real_of_int n\<bar> \<le> 10 ^ 100"
    using n by (metis of_int_abs of_int_le_iff of_int_numeral of_int_power)
  from double_bounded [OF this]
  obtain a where a: "double (of_int n) = Finite a" "\<bar>a\<bar> \<le> 10 ^ 101" by auto
  then have nf: "float_of_int n = Inr (Finite a)" by (simp add: float_of_int_def)
  from laps_bounded [OF a(2) x] obtain lf
    where lf: "laps_on_fuel (Finite a) (Finite x) = Finite lf" "\<bar>lf\<bar> \<le> 10 ^ 305"
    by (auto simp: laps_on_fuel_def fuel_remaining_def)
  from laps_bounded [OF a(2) y] obtain lt
    where lt: "laps_on_tires (Finite a) (Finite y) = Finite lt" "\<bar>lt\<bar> \<le> 10 ^ 305"
    by (auto simp: laps_on_tires_def tire_condition_def)
  define l where "l = (if lf < lt then lf else lt)"
  have sel: "snd (critical (laps_on_fuel (Finite a) (Finite x))
                           (laps_on_tires (Finite a) (Finite y))) = Finite l"
    by (simp add: critical_def lf lt l_def)
  have "\<bar>l\<bar> \<le> 10 ^ 305" using lf lt by (simp add: l_def)
  then have "\<bar>l - 5 / 2\<bar> \<le> 10 ^ 306" by simp
  from double_bounded [OF this]
  obtain z where z: "double (l - 5 / 2) = Finite z" by auto
  have k: "py_int (float_sub (snd (critical (laps_on_fuel (Finite a) (Finite x))
                           (laps_on_tires (Finite a) (Finite y)))) (Finite (5 / 2)))
        = Inr (if 0 \<le> z then \<lfloor>z\<rfloor> else \<lceil>z\<rceil>)"
    unfolding sel by (simp add: float_sub_def z)
  from x y have nz: "Finite x \<noteq> Finite 0" "Finite y \<noteq> Finite 0" by auto
  from nf nz k show ?thesis by (rule predict_pit_window_returns_if)
qed


text \<open>The floats of the default rates, and the default call at the laps used below.\<close>

lemma default_rates:
  "double (5 / 2) = Finite (5 / 2)"
  "double (16 / 5) = Finite (3602879701896397 / 1125899906842624)"
  by (simp_all add: float_defs)

lemma predict_pit_window_fields:
  assumes "predict_pit_window c n f t = Inr r"
  obtains nf x z where "float_of_int n = Inr nf"
    and "snd (critical (laps_on_fuel nf f) (laps_on_tires nf t)) = Finite x"
    and "float_sub (Finite x) (Finite (5 / 2)) = Finite z"
    and "fuel_remaining_pct r = py_round1 (fuel_remaining nf f)"
    and "tire_condition_pct r = py_round1 (tire_condition nf t)"
    and "critical_factor r = fst (critical (laps_on_fuel nf f) (laps_on_tires nf t))"
    and "laps_until_critical r = py_round1 (Finite x)"
    and "optimal_pit_lap r = n + max 1 \<lfloor>z\<rfloor>"
    and "pit_window r = (optimal_pit_lap r - 2, optimal_pit_lap r + 2)"
    and "urgency r = urgency_of (Finite x)"
proof -
  from assms obtain nf k where nf: "float_of_int n = Inr nf"
    and k: "py_int (float_sub (snd (critical (laps_on_fuel nf f) (laps_on_tires nf t)))
                   (Finite (5 / 2))) = Inr k"
    and r: "r = \<lparr>car_id = c, current_lap = n,
              fuel_remaining_pct = py_round1 (fuel_remaining nf f),
              tire_condition_pct = py_round1 (tire_condition nf t),
              critical_factor = fst (critical (laps_on_fuel nf f) (laps_on_tires nf t)),
              laps_until_critical =
                py_round1 (snd (critical (laps_on_fuel nf f) (laps_on_tires nf t))),
              optimal_pit_lap = n + max 1 k,
              pit_window = (n + max 1 k - 2, n + max 1 k + 2),
              urgency = urgency_of (snd (critical (laps_on_fuel nf f) (laps_on_tires nf t)))\<rparr>"
    by (rule predict_pit_window_Inr)
  from py_int_float_sub [OF k] obtain x z
    where x: "snd (critical (laps_on_fuel nf f) (laps_on_tires nf t)) = Finite x"
      and z: "float_sub (snd (critical (laps_on_fuel nf f) (laps_on_tires nf t)))
                (Finite (5 / 2)) = Finite z"
      and kz: "k = (if 0 \<le> z then \<lfloor>z\<rfloor> else \<lceil>z\<rceil>)"
    by blast
  from kz have "max 1 k = max 1 \<lfloor>z\<rfloor>" by (simp only: max_py_int_floor)
  with r x have "optimal_pit_lap r = n + max 1 \<lfloor>z\<rfloor>"
    and "pit_window r = (optimal_pit_lap r - 2, optimal_pit_lap r + 2)"
    and "fuel_remaining_pct r = py_round1 (fuel_remaining nf f)"
    and "tire_condition_pct r = py_round1 (tire_condition nf t)"
    and "critical_factor r = fst (critical (laps_on_fuel nf f) (laps_on_tires nf t))"
    and "laps_until_critical r = py_round1 (Finite x)"
    and "urgency r = urgency_of (Finite x)"
    by simp_all
  with nf x z that show thesis by simp
qed





text \<open>
  C2, as the code has it. The source tests \<^verbatim>\<open>laps_on_fuel < laps_on_tires\<close> and takes
  the tyre branch otherwise: whenever the call returns, the critical factor is \<open>fuel\<close>
  exactly when fuel gives strictly fewer laps than the tyres and \<open>tires\<close> otherwise, the
  reported laps remaining is the smaller of the two values (rounded to one decimal place),
  and on a tie the critical factor is \<open>tires\<close>, with the common value as laps remaining.
  The call returns for every lap of magnitude up to \<open>10 ^ 100\<close> and rates of magnitude
  between \<open>10 ^ -100\<close> and \<open>10 ^ 100\<close>.
\<close>

theorem predict_pit_window_critical_factor:
  "(\<forall>r. predict_pit_window c n f t = Inr r \<longrightarrow>
      (\<exists>nf. float_of_int n = Inr nf \<and>
         (critical_factor r = ''fuel'' \<longleftrightarrow>
            float_lt (laps_on_fuel nf f) (laps_on_tires nf t)) \<and>
         (critical_factor r = ''tires'' \<longleftrightarrow>
            \<not> float_lt (laps_on_fuel nf f) (laps_on_tires nf t)) \<and>
         laps_until_critical r =
           py_round1 (if float_lt (laps_on_fuel nf f) (laps_on_tires nf t)
                      then laps_on_fuel nf f else laps_on_tires nf t) \<and>
         (\<forall>lf lt. laps_on_fuel nf f = Finite lf \<and> laps_on_tires nf t = Finite lt \<longrightarrow>
            (critical_factor r = ''fuel'' \<longleftrightarrow> lf < lt) \<and>
            (critical_factor r = ''tires'' \<longleftrightarrow> lt \<le> lf) \<and>
            laps_until_critical r = py_round1 (Finite (min lf lt))) \<and>
         (laps_on_fuel nf f = laps_on_tires nf t \<longrightarrow>
            critical_factor r = ''tires'' \<and>
            laps_until_critical r = py_round1 (laps_on_tires nf t)))) \<and>
   (\<bar>n\<bar> \<le> 10 ^ 100 \<and> 1 / 10 ^ 100 \<le> \<bar>a\<bar> \<and> \<bar>a\<bar> \<le> 10 ^ 100 \<and>
      1 / 10 ^ 100 \<le> \<bar>b\<bar> \<and> \<bar>b\<bar> \<le> 10 ^ 100 \<longrightarrow>
      (\<exists>r. predict_pit_window c n (Finite a) (Finite b) = Inr r))"
proof (intro conjI allI impI)
  fix r
  assume "predict_pit_window c n f t = Inr r"
  then obtain nf x where nf: "float_of_int n = Inr nf"
    and x: "snd (critical (laps_on_fuel nf f) (laps_on_tires nf t)) = Finite x"
    and cf: "critical_factor r = fst (critical (laps_on_fuel nf f) (laps_on_tires nf t))"
    and lu: "laps_until_critical r = py_round1 (Finite x)"
    by (rule predict_pit_window_fields)
  define lf where "lf = laps_on_fuel nf f"
  define lt where "lt = laps_on_tires nf t"
  note x' = x [folded lf_def lt_def] and cf' = cf [folded lf_def lt_def]
  have 1: "critical_factor r = ''fuel'' \<longleftrightarrow> float_lt lf lt"
    and 2: "critical_factor r = ''tires'' \<longleftrightarrow> \<not> float_lt lf lt"
    unfolding cf' by (simp_all add: critical_def)
  have 3: "laps_until_critical r = py_round1 (if float_lt lf lt then lf else lt)"
    unfolding lu x' [symmetric] by (simp add: critical_def)
  have 4: "\<forall>u v. lf = Finite u \<and> lt = Finite v \<longrightarrow>
            (critical_factor r = ''fuel'' \<longleftrightarrow> u < v) \<and>
            (critical_factor r = ''tires'' \<longleftrightarrow> v \<le> u) \<and>
            laps_until_critical r = py_round1 (Finite (min u v))"
    using 1 2 3 by (auto simp: min_def)
  have 5: "lf = lt \<longrightarrow> critical_factor r = ''tires'' \<and> laps_until_critical r = py_round1 lt"
  proof
    assume "lf = lt"
    moreover have "\<not> float_lt lt lt" by (cases lt) simp_all
    ultimately show "critical_factor r = ''tires'' \<and> laps_until_critical r = py_round1 lt"
      using 2 3 by simp
  qed
  from nf 1 2 3 4 5
  show "\<exists>nf. float_of_int n = Inr nf \<and>
         (critical_factor r = ''fuel'' \<longleftrightarrow>
            float_lt (laps_on_fuel nf f) (laps_on_tires nf t)) \<and>
         (critical_factor r = ''tires'' \<longleftrightarrow>
            \<not> float_lt (laps_on_fuel nf f) (laps_on_tires nf t)) \<and>
         laps_until_critical r =
           py_round1 (if float_lt (laps_on_fuel nf f) (laps_on_tires nf t)
                      then laps_on_fuel nf f else laps_on_tires nf t) \<and>
         (\<forall>lf lt. laps_on_fuel nf f = Finite lf \<and> laps_on_tires nf t = Finite lt \<longrightarrow>
            (critical_factor r = ''fuel'' \<longleftrightarrow> lf < lt) \<and>
            (critical_factor r = ''tires'' \<longleftrightarrow> lt \<le> lf) \<and>
            laps_until_critical r = py_round1 (Finite (min lf lt))) \<and>
         (laps_on_fuel nf f = laps_on_tires nf t \<longrightarrow>
            critical_factor r = ''tires'' \<and>
            laps_until_critical r = py_round1 (laps_on_tires nf t))"
    unfolding lf_def lt_def by (intro exI [of _ nf] conjI)
next
  assume "\<bar>n\<bar> \<le> 10 ^ 100 \<and> 1 / 10 ^ 100 \<le> \<bar>a\<bar> \<and> \<bar>a\<bar> \<le> 10 ^ 100 \<and>
      1 / 10 ^ 100 \<le> \<bar>b\<bar> \<and> \<bar>b\<bar> \<le> 10 ^ 100"
  then show "\<exists>r. predict_pit_window c n (Finite a) (Finite b) = Inr r"
    using predict_pit_window_returns [of n a b c] by blast
qed

theorem predict_pit_window_critical_factor_witness:
  "\<bar>10::int\<bar> \<le> 10 ^ 100 \<and> float_of_int 10 = Inr (Finite 10) \<and>
   laps_on_fuel (Finite 10) (Finite (5 / 2)) = laps_on_tires (Finite 10) (Finite (5 / 2)) \<and>
   (\<exists>r. predict_pit_window ''CAR_001'' 10 (Finite (5 / 2)) (Finite (5 / 2)) = Inr r \<and>
        critical_factor r = ''tires'' \<and> laps_until_critical r = Finite 30)"
proof -
  note inst = predict_pit_window_critical_factor
    [where c = "''CAR_001''" and n = 10 and f = "Finite (5 / 2)" and t = "Finite (5 / 2)" and a = "5 / 2" and b = "5 / 2"]
  have nf: "float_of_int 10 = Inr (Finite 10)" by (simp add: float_defs)
  have tie: "laps_on_fuel (Finite 10) (Finite (5 / 2)) = laps_on_tires (Finite 10) (Finite (5 / 2))"
    and val: "py_round1 (laps_on_tires (Finite 10) (Finite (5 / 2))) = Finite 30"
    by (simp_all add: predictor_defs float_defs)
  have "\<exists>r. predict_pit_window ''CAR_001'' 10 (Finite (5 / 2)) (Finite (5 / 2)) = Inr r"
    using inst [THEN conjunct2] by simp
  then obtain r
    where r: "predict_pit_window ''CAR_001'' 10 (Finite (5 / 2)) (Finite (5 / 2)) = Inr r" ..
  with inst [THEN conjunct1] nf
  have "laps_on_fuel (Finite 10) (Finite (5 / 2)) = laps_on_tires (Finite 10) (Finite (5 / 2)) \<longrightarrow>
            critical_factor r = ''tires'' \<and>
            laps_until_critical r = py_round1 (laps_on_tires (Finite 10) (Finite (5 / 2)))"
    by auto
  with tie val have "critical_factor r = ''tires'' \<and> laps_until_critical r = Finite 30"
    by simp
  with r nf tie show ?thesis by simp
qed

text \<open>
  C2 as the claim states it fails on a tie: at lap 10 with both rates 2.5 fuel and tyres
  both give 30 laps, and the critical factor returned is not \<open>fuel\<close>.
\<close>

theorem predict_pit_window_tie_counterexample:
  "float_of_int 10 = Inr (Finite 10) \<and>
   laps_on_fuel (Finite 10) (Finite (5 / 2)) = laps_on_tires (Finite 10) (Finite (5 / 2)) \<and>
   critical_factor (projr (predict_pit_window ''CAR_001'' 10 (Finite (5 / 2)) (Finite (5 / 2))))
     \<noteq> ''fuel''"
  by (simp add: predictor_defs float_defs)



text \<open>
  C3 as the claim states it fails for a lap number that has no float: at lap \<open>10 ^ 400\<close>
  with the default rates the call raises \<^verbatim>\<open>OverflowError\<close> and returns nothing.
\<close>

theorem predict_pit_window_overflow_counterexample:
  "(0::int) \<le> 10 ^ 400 \<and> double (5 / 2) = Finite (5 / 2) \<and>
   double (16 / 5) = Finite (3602879701896397 / 1125899906842624) \<and>
   predict_pit_window ''CAR_001'' (10 ^ 400) (double (5 / 2)) (double (16 / 5))
     = Inl OverflowError"
  by (simp add: predictor_defs float_defs)

text \<open>
  C9. The car id only passes through: two calls that differ in the car id alone raise
  the same error or return records that differ in the field \<open>car_id\<close> alone, which
  echoes the argument.
\<close>

theorem predict_pit_window_car_id_noninterference:
  "predict_pit_window y n f t =
     map_sum id (\<lambda>r. r\<lparr>car_id := y\<rparr>) (predict_pit_window x n f t) \<and>
   map_sum id car_id (predict_pit_window x n f t) =
     map_sum id (\<lambda>r. x) (predict_pit_window x n f t) \<and>
   map_sum id current_lap (predict_pit_window x n f t) =
     map_sum id current_lap (predict_pit_window y n f t) \<and>
   map_sum id fuel_remaining_pct (predict_pit_window x n f t) =
     map_sum id fuel_remaining_pct (predict_pit_window y n f t) \<and>
   map_sum id tire_condition_pct (predict_pit_window x n f t) =
     map_sum id tire_condition_pct (predict_pit_window y n f t) \<and>
   map_sum id critical_factor (predict_pit_window x n f t) =
     map_sum id critical_factor (predict_pit_window y n f t) \<and>
   map_sum id laps_until_critical (predict_pit_window x n f t) =
     map_sum id laps_until_critical (predict_pit_window y n f t) \<and>
   map_sum id optimal_pit_lap (predict_pit_window x n f t) =
     map_sum id optimal_pit_lap (predict_pit_window y n f t) \<and>
   map_sum id pit_window (predict_pit_window x n f t) =
     map_sum id pit_window (predict_pit_window y n f t) \<and>
   map_sum id urgency (predict_pit_window x n f t) =
     map_sum id urgency (predict_pit_window y n f t)"
  by (simp add: predict_pit_window_def Let_def split: prod.split sum.split)

section \<open>Properties of the lap time deriver\<close>

lemma to_datetime_cell_Some:
  assumes "to_datetime_cell td c = Some d"
  shows "(c = Missing \<and> d = Missing) \<or> (c \<noteq> Missing \<and> (\<exists>n. td c = Some n \<and> d = Time n))"
  using assms by (cases c) (auto simp: to_datetime_cell_def)

lemma to_datetime_column_Inr:
  assumes "to_datetime_column td df = Inr df'"
  shows "columns df' = columns df"
    and "''timestamp'' \<in> set (columns df)"
    and "rows df' =
           map (\<lambda>r. r(''timestamp'' := the (to_datetime_cell td (r ''timestamp'')))) (rows df)"
    and "\<And>r. r \<in> set (rows df) \<Longrightarrow> \<exists>d. to_datetime_cell td (r ''timestamp'') = Some d"
proof -
  from assms have c: "''timestamp'' \<in> set (columns df)"
    and ok: "\<not> list_ex (\<lambda>r. to_datetime_cell td (r ''timestamp'') = None) (rows df)"
    and d: "df' = df\<lparr>rows := map (\<lambda>r. case to_datetime_cell td (r ''timestamp'') of
                                        Some c \<Rightarrow> r(''timestamp'' := c)
                                      | None \<Rightarrow> r) (rows df)\<rparr>"
    by (auto simp: to_datetime_column_def split: if_splits)
  from ok have some: "\<exists>d. to_datetime_cell td (r ''timestamp'') = Some d"
    if "r \<in> set (rows df)" for r
    using that by (auto simp: list_ex_iff)
  show "columns df' = columns df" by (simp add: d)
  show "''timestamp'' \<in> set (columns df)" by (rule c)
  show "\<exists>d. to_datetime_cell td (r ''timestamp'') = Some d" if "r \<in> set (rows df)" for r
    using that by (rule some)
  have "(case to_datetime_cell td (r ''timestamp'') of
           Some c \<Rightarrow> r(''timestamp'' := c) | None \<Rightarrow> r) =
        r(''timestamp'' := the (to_datetime_cell td (r ''timestamp'')))"
    if "r \<in> set (rows df)" for r
    using some [OF that] by auto
  then show "rows df' =
      map (\<lambda>r. r(''timestamp'' := the (to_datetime_cell td (r ''timestamp'')))) (rows df)"
    by (simp add: d)
qed

lemma merge_inner_Inr:
  assumes "merge_inner left right on ls rs = Inr m"
  defines "overlap \<equiv> filter (\<lambda>c. c \<in> set (columns right) \<and> c \<notin> set on) (columns left)"
  defines "lcols \<equiv> map (\<lambda>c. (suffixed overlap ls c, c)) (columns left)"
  defines "rcols \<equiv> map (\<lambda>c. (suffixed overlap rs c, c)) (filter (\<lambda>c. c \<notin> set on) (columns right))"
  shows "set on \<subseteq> set (columns left)" and "set on \<subseteq> set (columns right)"
    and "distinct (map fst lcols)" and "distinct (map fst rcols)"
    and "columns m = map fst lcols @ map fst rcols"
    and "rows m = concat (map (\<lambda>l. map (join_row lcols rcols l)
                                      (filter (keys_agree on l) (rows right))) (rows left))"
  using assms(1) unfolding overlap_def lcols_def rcols_def
  by (auto simp: merge_inner_def Let_def split: if_splits)

lemma join_row_left:
  assumes "distinct (map fst lcols)" and "(n, old) \<in> set lcols"
  shows "join_row lcols rcols l r n = l old"
  using assms by (simp add: join_row_def)

lemma join_row_right:
  assumes "n \<notin> fst ` set lcols" and "distinct (map fst rcols)" and "(n, old) \<in> set rcols"
  shows "join_row lcols rcols l r n = r old"
proof -
  from assms(1) have "map_of lcols n = None" by (simp add: map_of_eq_None_iff)
  with assms(2,3) show ?thesis by (simp add: join_row_def)
qed

lemma count_list_append_right_once:
  assumes "count_list (xs @ ys) x = 1" and "x \<in> set ys"
  shows "x \<notin> set xs"
proof
  assume "x \<in> set xs"
  then have "count_list xs x \<noteq> 0" by (simp add: count_list_0_iff)
  moreover from assms(2) have "count_list ys x \<noteq> 0" by (simp add: count_list_0_iff)
  ultimately show False using assms(1) by simp
qed

text \<open>
  What the deriver reads from a row of its merged table.
\<close>

lemma merged_row_reads:
  assumes m: "merge_inner ends starts [''vehicle_id'', ''lap''] ''_end'' ''_start'' = Inr merged"
    and te: "''timestamp'' \<in> set (columns ends)"
    and ts: "''timestamp'' \<in> set (columns starts)"
    and c: "count_list (columns merged) ''timestamp_start'' = 1"
  shows "\<exists>j. rows merged =
              concat (map (\<lambda>e. map (j e)
                    (filter (keys_agree [''vehicle_id'', ''lap''] e) (rows starts))) (rows ends)) \<and>
            (\<forall>e s. j e s ''vehicle_id'' = e ''vehicle_id'' \<and> j e s ''lap'' = e ''lap'' \<and>
                   j e s ''timestamp_end'' = e ''timestamp'' \<and>
                   j e s ''timestamp_start'' = s ''timestamp'')"
proof -
  define on where "on = [''vehicle_id'', ''lap'']"
  define overlap where
    "overlap = filter (\<lambda>c. c \<in> set (columns starts) \<and> c \<notin> set on) (columns ends)"
  define lcols where "lcols = map (\<lambda>c. (suffixed overlap ''_end'' c, c)) (columns ends)"
  define rcols where "rcols = map (\<lambda>c. (suffixed overlap ''_start'' c, c))
                                  (filter (\<lambda>c. c \<notin> set on) (columns starts))"
  note facts = merge_inner_Inr [OF m, folded on_def, folded overlap_def, folded lcols_def rcols_def]
  have dl: "distinct (map fst lcols)" and dr: "distinct (map fst rcols)"
    using facts(3,4) .
  have keys: "''vehicle_id'' \<in> set (columns ends)" "''lap'' \<in> set (columns ends)"
    using facts(1) by (simp_all add: on_def)
  have ov: "''timestamp'' \<in> set overlap" "''vehicle_id'' \<notin> set overlap" "''lap'' \<notin> set overlap"
    using te ts by (simp_all add: overlap_def on_def)
  have l1: "(''vehicle_id'', ''vehicle_id'') \<in> set lcols"
    and l2: "(''lap'', ''lap'') \<in> set lcols"
    and l3: "(''timestamp_end'', ''timestamp'') \<in> set lcols"
    using keys te ov by (auto simp: lcols_def suffixed_def image_iff)
  have r3: "(''timestamp_start'', ''timestamp'') \<in> set rcols"
    using ts ov by (auto simp: rcols_def suffixed_def image_iff on_def)
  then have "fst (''timestamp_start'', ''timestamp'') \<in> fst ` set rcols"
    by (rule imageI)
  then have "''timestamp_start'' \<in> set (map fst rcols)" by simp
  moreover from c facts(5)
  have "count_list (map fst lcols @ map fst rcols) ''timestamp_start'' = 1" by simp
  ultimately have "''timestamp_start'' \<notin> set (map fst lcols)"
    by (rule count_list_append_right_once [rotated])
  then have nl: "''timestamp_start'' \<notin> fst ` set lcols" by simp
  let ?j = "join_row lcols rcols"
  have "rows merged = concat (map (\<lambda>e. map (?j e)
                    (filter (keys_agree [''vehicle_id'', ''lap''] e) (rows starts))) (rows ends))"
    using facts(6) by (simp add: on_def)
  moreover have "\<forall>e s. ?j e s ''vehicle_id'' = e ''vehicle_id'' \<and> ?j e s ''lap'' = e ''lap'' \<and>
                   ?j e s ''timestamp_end'' = e ''timestamp'' \<and>
                   ?j e s ''timestamp_start'' = s ''timestamp''"
    using join_row_left [OF dl l1] join_row_left [OF dl l2] join_row_left [OF dl l3]
      join_row_right [OF nl dr r3] by blast
  ultimately show ?thesis by blast
qed

lemma joined_inner_eq:
  assumes "\<forall>s\<in>set ss. (Q (g s) \<longleftrightarrow> P (e, s)) \<and> (P (e, s) \<longrightarrow> f (g s) = h (e, s))"
  shows "map f (filter Q (map g (filter M ss))) =
         map h (filter P (concat (map (\<lambda>s. if M s then [(e, s)] else []) ss)))"
  using assms by (induction ss) auto

lemma joined_outer_eq:
  assumes "\<forall>e\<in>set es. \<forall>s\<in>set ss.
             (Q (g e s) \<longleftrightarrow> P (e, s)) \<and> (P (e, s) \<longrightarrow> f (g e s) = h (e, s))"
  shows "map f (filter Q (concat (map (\<lambda>e. map (g e) (filter (M e) ss)) es))) =
         map h (filter P (concat (map (\<lambda>e. concat (map (\<lambda>s. if M e s then [(e, s)] else []) ss)) es)))"
  using assms
proof (induction es)
  case Nil
  then show ?case by simp
next
  case (Cons e es)
  from Cons.prems
  have "\<forall>s\<in>set ss. (Q (g e s) \<longleftrightarrow> P (e, s)) \<and> (P (e, s) \<longrightarrow> f (g e s) = h (e, s))"
    by simp
  from joined_inner_eq [where g = "g e" and e = e and M = "M e", OF this] Cons
  show ?case by simp
qed

lemma calculate_lap_times_refines:
  assumes "calculate_lap_times td start_table end_table = Some result"
  shows "columns result = [''vehicle_id'', ''lap'', ''lap_time'', ''timestamp'']"
    and "map lap_record_of (rows result) =
         map (spec_lap_record td) (spec_retained td start_table end_table)"
    and "\<forall>r\<in>set (rows result). lap_time_valid r"
proof -
  from assms obtain starts ends merged where
    s: "to_datetime_column td start_table = Inr starts" and
    e: "to_datetime_column td end_table = Inr ends" and
    m: "merge_inner ends starts [''vehicle_id'', ''lap''] ''_end'' ''_start'' = Inr merged" and
    c: "count_list (columns merged) ''timestamp_start'' = 1" and
    t: "\<not> list_ex (\<lambda>m. total_seconds m = None) (rows merged)" and
    r: "result = \<lparr>columns = [''vehicle_id'', ''lap'', ''lap_time'', ''timestamp''],
                  rows = filter lap_time_valid
                           (map (\<lambda>m. lap_time_row m (the (total_seconds m))) (rows merged))\<rparr>"
    by (auto simp: calculate_lap_times_def calculate_lap_times_body_def
        split: sum.splits if_splits)
  from r show "columns result = [''vehicle_id'', ''lap'', ''lap_time'', ''timestamp'']"
    and "\<forall>r\<in>set (rows result). lap_time_valid r" by simp_all
  define U where
    "U = (\<lambda>r::row. r(''timestamp'' := the (to_datetime_cell td (r ''timestamp''))))"
  note S = to_datetime_column_Inr [OF s, folded U_def]
  note E = to_datetime_column_Inr [OF e, folded U_def]
  from merged_row_reads [OF m] E(1,2) S(1,2) c
  obtain j where j: "rows merged =
              concat (map (\<lambda>e. map (j e)
                    (filter (keys_agree [''vehicle_id'', ''lap''] e) (rows starts))) (rows ends))"
    and jr: "\<And>e s. j e s ''vehicle_id'' = e ''vehicle_id''" "\<And>e s. j e s ''lap'' = e ''lap''"
       "\<And>e s. j e s ''timestamp_end'' = e ''timestamp''"
       "\<And>e s. j e s ''timestamp_start'' = s ''timestamp''"
    by auto
  define g where "g = (\<lambda>e s. lap_time_row (j (U e) (U s)) (the (total_seconds (j (U e) (U s)))))"
  define M where "M = (\<lambda>(e::row) (s::row). e ''vehicle_id'' = s ''vehicle_id'' \<and> e ''lap'' = s ''lap'')"
  have KA: "keys_agree [''vehicle_id'', ''lap''] (U e) (U s) = M e s" for e s
    by (simp add: keys_agree_def U_def M_def)
  have rows_g: "rows result =
      filter lap_time_valid (concat (map (\<lambda>e. map (g e) (filter (M e) (rows start_table))) (rows end_table)))"
    by (simp add: r j S(3) E(3) map_concat filter_map comp_def KA g_def)
  define P where
    "P = (\<lambda>p. case spec_lap_time td p of Some t \<Rightarrow> 30 < t \<and> t < 300 | None \<Rightarrow> False)"
  have spec: "spec_retained td start_table end_table =
      filter P
        (concat (map (\<lambda>e. concat (map (\<lambda>s. if M e s then [(e, s)] else []) (rows start_table)))
                     (rows end_table)))"
    by (simp add: spec_retained_def spec_joined_def M_def P_def)
  have pointwise: "\<forall>e\<in>set (rows end_table). \<forall>s\<in>set (rows start_table).
      (lap_time_valid (g e s) \<longleftrightarrow> P (e, s)) \<and>
      (P (e, s) \<longrightarrow> lap_record_of (g e s) = spec_lap_record td (e, s))"
  proof (intro ballI)
    fix e s
    assume "e \<in> set (rows end_table)" and "s \<in> set (rows start_table)"
    with E(4) S(4) obtain ce cs where ce: "to_datetime_cell td (e ''timestamp'') = Some ce"
      and cs: "to_datetime_cell td (s ''timestamp'') = Some cs"
      by blast
    have Ue: "U e ''timestamp'' = ce" and Us: "U s ''timestamp'' = cs"
      and Uk: "U e ''vehicle_id'' = e ''vehicle_id''" "U e ''lap'' = e ''lap''"
      by (simp_all add: U_def ce cs)
    show "(lap_time_valid (g e s) \<longleftrightarrow> P (e, s)) \<and>
      (P (e, s) \<longrightarrow> lap_record_of (g e s) = spec_lap_record td (e, s))"
    proof (cases "e ''timestamp'' = Missing \<or> s ''timestamp'' = Missing")
      case True
      with to_datetime_cell_Some [OF ce] to_datetime_cell_Some [OF cs]
      have "total_seconds (j (U e) (U s)) = Some Missing"
        by (auto simp: total_seconds_def jr Ue Us)
      then have G: "g e s = lap_time_row (j (U e) (U s)) Missing"
        by (simp only: g_def option.sel)
      from True have "spec_lap_time td (e, s) = None"
        by (auto simp: spec_lap_time_def event_time_def split: option.splits)
      then show ?thesis
        by (simp add: P_def G lap_time_valid_def lap_time_row_def)
    next
      case False
      with to_datetime_cell_Some [OF ce] to_datetime_cell_Some [OF cs]
      obtain a b where a: "td (e ''timestamp'') = Some a" "ce = Time a"
        and b: "td (s ''timestamp'') = Some b" "cs = Time b"
        by auto
      from False a b have ea: "event_time td e = Some a" and eb: "event_time td s = Some b"
        by (auto simp: event_time_def split: cell.splits)
      have ts: "total_seconds (j (U e) (U s)) = Some (Num (of_int (a - b) / 10 ^ 9))"
        by (simp add: total_seconds_def jr Ue Us a b)
      have G: "g e s = lap_time_row (j (U e) (U s)) (Num (of_int (a - b) / 10 ^ 9))"
        by (simp only: g_def ts option.sel)
      have sp: "spec_lap_time td (e, s) = Some (of_int (a - b) / 10 ^ 9)"
        by (simp add: spec_lap_time_def ea eb)
      show ?thesis
        by (simp add: P_def G sp lap_time_valid_def lap_time_row_def lap_record_of_def
            spec_lap_record_def jr Ue Uk a ea)
    qed
  qed
  show "map lap_record_of (rows result) =
         map (spec_lap_record td) (spec_retained td start_table end_table)"
    unfolding rows_g spec
    by (rule joined_outer_eq [where P = P and h = "spec_lap_record td" and g = g
          and Q = lap_time_valid and f = lap_record_of, OF pointwise])
qed

lemma count_list_distinct:
  assumes "distinct xs" and "x \<in> set xs"
  shows "count_list xs x = 1"
  using assms by (induction xs) (auto simp: count_list_0_iff)

lemma suffixed_distinct:
  assumes d: "distinct cols"
    and n: "\<forall>c\<in>set cols. \<forall>d. c \<noteq> d @ sfx"
  shows "distinct (map (suffixed overlap sfx) cols)"
proof -
  have "inj_on (suffixed overlap sfx) (set cols)"
  proof (rule inj_onI)
    fix a b assume a: "a \<in> set cols" and b: "b \<in> set cols"
      and eq: "suffixed overlap sfx a = suffixed overlap sfx b"
    show "a = b"
    proof (cases "a \<in> set overlap"; cases "b \<in> set overlap")
      assume "a \<in> set overlap" "b \<in> set overlap"
      with eq show ?thesis by (simp add: suffixed_def)
    next
      assume "a \<in> set overlap" "b \<notin> set overlap"
      with eq have "b = a @ sfx" by (simp add: suffixed_def)
      with n b show ?thesis by blast
    next
      assume "a \<notin> set overlap" "b \<in> set overlap"
      with eq have "a = b @ sfx" by (simp add: suffixed_def)
      with n a show ?thesis by blast
    next
      assume "a \<notin> set overlap" "b \<notin> set overlap"
      with eq show ?thesis by (simp add: suffixed_def)
    qed
  qed
  with d show ?thesis by (simp add: distinct_map)
qed

lemma end_not_start: "c @ ''_end'' \<noteq> ''timestamp_start''"
proof
  assume "c @ ''_end'' = ''timestamp_start''"
  then have "last (c @ ''_end'') = last ''timestamp_start''" by (rule arg_cong)
  then show False by simp
qed

lemma start_not_end: "c @ ''_start'' \<noteq> ''timestamp_end''"
proof
  assume "c @ ''_start'' = ''timestamp_end''"
  then have "last (c @ ''_start'') = last ''timestamp_end''" by (rule arg_cong)
  then show False by simp
qed

text \<open>
  The deriver returns a table whenever both event tables have the three columns it reads,
  no column name is repeated or already carries one of the two suffixes, and every time
  stamp that is not missing can be parsed.
\<close>

lemma calculate_lap_times_returns:
  assumes ds: "distinct (columns start_table)" and de: "distinct (columns end_table)"
    and ks: "{''vehicle_id'', ''lap'', ''timestamp''} \<subseteq> set (columns start_table)"
    and ke: "{''vehicle_id'', ''lap'', ''timestamp''} \<subseteq> set (columns end_table)"
    and ns: "\<forall>c\<in>set (columns start_table). \<forall>d. c \<noteq> d @ ''_end'' \<and> c \<noteq> d @ ''_start''"
    and ne: "\<forall>c\<in>set (columns end_table). \<forall>d. c \<noteq> d @ ''_end'' \<and> c \<noteq> d @ ''_start''"
    and ps: "\<forall>r\<in>set (rows start_table).
               r ''timestamp'' \<noteq> Missing \<longrightarrow> td (r ''timestamp'') \<noteq> None"
    and pe: "\<forall>r\<in>set (rows end_table).
               r ''timestamp'' \<noteq> Missing \<longrightarrow> td (r ''timestamp'') \<noteq> None"
  shows "\<exists>result. calculate_lap_times td start_table end_table = Some result"
proof -
  define U where "U = (\<lambda>r::row. case to_datetime_cell td (r ''timestamp'') of
                                   Some c \<Rightarrow> r(''timestamp'' := c) | None \<Rightarrow> r)"
  have parsed: "to_datetime_cell td c \<noteq> None" if "c \<noteq> Missing \<longrightarrow> td c \<noteq> None" for c
    using that by (cases c) (auto simp: to_datetime_cell_def)
  define starts where "starts = start_table\<lparr>rows := map U (rows start_table)\<rparr>"
  define ends where "ends = end_table\<lparr>rows := map U (rows end_table)\<rparr>"
  have s: "to_datetime_column td start_table = Inr starts"
    using ks ps parsed by (simp add: to_datetime_column_def list_ex_iff starts_def U_def)
  have e: "to_datetime_column td end_table = Inr ends"
    using ke pe parsed by (simp add: to_datetime_column_def list_ex_iff ends_def U_def)
  have cs: "columns starts = columns start_table" and ce: "columns ends = columns end_table"
    by (simp_all add: starts_def ends_def)
  define on where "on = [''vehicle_id'', ''lap'']"
  define overlap where
    "overlap = filter (\<lambda>c. c \<in> set (columns starts) \<and> c \<notin> set on) (columns ends)"
  define lnames where "lnames = map (suffixed overlap ''_end'') (columns ends)"
  define rnames where "rnames = map (suffixed overlap ''_start'')
                                    (filter (\<lambda>c. c \<notin> set on) (columns starts))"
  have dl: "distinct lnames"
    unfolding lnames_def using de ne by (intro suffixed_distinct) (simp_all add: ce)
  have dr: "distinct rnames"
    unfolding rnames_def using ds ns by (intro suffixed_distinct) (simp_all add: cs)
  define merged where
    "merged = \<lparr>columns = lnames @ rnames,
               rows = concat (map (\<lambda>l. map (join_row
                          (map (\<lambda>c. (suffixed overlap ''_end'' c, c)) (columns ends))
                          (map (\<lambda>c. (suffixed overlap ''_start'' c, c))
                               (filter (\<lambda>c. c \<notin> set on) (columns starts))) l)
                        (filter (keys_agree on l) (rows starts))) (rows ends))\<rparr>"
  have m: "merge_inner ends starts [''vehicle_id'', ''lap''] ''_end'' ''_start'' = Inr merged"
    using ks ke dl dr
    by (simp add: merge_inner_def Let_def cs ce merged_def lnames_def rnames_def
        overlap_def on_def comp_def)
  have ov: "''timestamp'' \<in> set overlap"
    using ks ke by (simp add: overlap_def on_def cs ce)
  have l_end: "''timestamp_end'' \<in> set lnames"
  proof -
    from ke have "''timestamp'' \<in> set (columns ends)" by (simp add: ce)
    then have "suffixed overlap ''_end'' ''timestamp'' \<in> set lnames"
      unfolding lnames_def by (simp only: set_map) (rule imageI)
    with ov show ?thesis by (simp add: suffixed_def)
  qed
  have r_start: "''timestamp_start'' \<in> set rnames"
  proof -
    from ks have "''timestamp'' \<in> set (filter (\<lambda>c. c \<notin> set on) (columns starts))"
      by (simp add: cs on_def)
    then have "suffixed overlap ''_start'' ''timestamp'' \<in> set rnames"
      unfolding rnames_def by (simp only: set_map) (rule imageI)
    with ov show ?thesis by (simp add: suffixed_def)
  qed
  have r_end: "''timestamp_end'' \<notin> set rnames"
  proof
    assume "''timestamp_end'' \<in> set rnames"
    then obtain c where c: "c \<in> set (columns starts)"
      and eq: "suffixed overlap ''_start'' c = ''timestamp_end''"
      by (auto simp: rnames_def)
    show False
    proof (cases "c \<in> set overlap")
      case True
      with eq start_not_end [of c] show ?thesis by (simp add: suffixed_def)
    next
      case False
      with eq have "c = ''timestamp'' @ ''_end''" by (simp add: suffixed_def)
      with ns c show ?thesis by (simp only: cs) blast
    qed
  qed
  have l_start: "''timestamp_start'' \<notin> set lnames"
  proof
    assume "''timestamp_start'' \<in> set lnames"
    then obtain c where c: "c \<in> set (columns ends)"
      and eq: "suffixed overlap ''_end'' c = ''timestamp_start''"
      by (auto simp: lnames_def)
    show False
    proof (cases "c \<in> set overlap")
      case True
      with eq end_not_start [of c] show ?thesis by (simp add: suffixed_def)
    next
      case False
      with eq have "c = ''timestamp'' @ ''_start''" by (simp add: suffixed_def)
      with ne c show ?thesis by (simp only: ce) blast
    qed
  qed
  have c1: "count_list (columns merged) ''timestamp_end'' = 1"
    using count_list_distinct [OF dl l_end] r_end
    by (simp add: merged_def count_list_0_iff)
  have c2: "count_list (columns merged) ''timestamp_start'' = 1"
    using count_list_distinct [OF dr r_start] l_start
    by (simp add: merged_def count_list_0_iff)
  have te: "''timestamp'' \<in> set (columns ends)" and ts: "''timestamp'' \<in> set (columns starts)"
    using ke ks by (simp_all add: cs ce)
  from merged_row_reads [OF m te ts c2]
  obtain j where j: "rows merged =
              concat (map (\<lambda>e. map (j e)
                    (filter (keys_agree [''vehicle_id'', ''lap''] e) (rows starts))) (rows ends))"
    and jr: "\<And>e s. j e s ''timestamp_end'' = e ''timestamp''"
       "\<And>e s. j e s ''timestamp_start'' = s ''timestamp''"
    by auto
  have timed: "(\<exists>n. U r ''timestamp'' = Time n) \<or> U r ''timestamp'' = Missing"
    if "r ''timestamp'' \<noteq> Missing \<longrightarrow> td (r ''timestamp'') \<noteq> None" for r
    using that by (cases "r ''timestamp''") (auto simp: U_def to_datetime_cell_def)
  have time_s: "(\<exists>n. r ''timestamp'' = Time n) \<or> r ''timestamp'' = Missing"
    if "r \<in> set (rows starts)" for r
    using that ps timed by (auto simp: starts_def)
  have time_e: "(\<exists>n. r ''timestamp'' = Time n) \<or> r ''timestamp'' = Missing"
    if "r \<in> set (rows ends)" for r
    using that pe timed by (auto simp: ends_def)
  have ok: "\<not> list_ex (\<lambda>m. total_seconds m = None) (rows merged)"
  proof
    assume "list_ex (\<lambda>m. total_seconds m = None) (rows merged)"
    then obtain x where x: "x \<in> set (rows merged)" and n: "total_seconds x = None"
      by (auto simp: list_ex_iff)
    from x j obtain e1 s1 where e1: "e1 \<in> set (rows ends)" and s1: "s1 \<in> set (rows starts)"
      and xj: "x = j e1 s1"
      by auto
    from time_e [OF e1] time_s [OF s1] jr xj have "total_seconds x \<noteq> None"
      by (auto simp: total_seconds_def)
    with n show False by simp
  qed
  show ?thesis
    by (simp add: calculate_lap_times_def calculate_lap_times_body_def s e m c1 c2 ok)
qed

text \<open>
  C4. Whenever the deriver returns a table, its rows are, up to order, exactly the lap
  records of the pairs that the inner join on (car id, lap number) produces and whose lap
  time (end time stamp minus start time stamp, in seconds) lies strictly between 30 and
  300; every row of the table satisfies the strict bound; and every row carries a key
  that occurs in both event tables, so a key of one table alone contributes no row.
  (When the deriver returns a table is the subject of the lemma before.)
\<close>

theorem calculate_lap_times_inner_join:
  assumes "calculate_lap_times to_datetime start_table end_table = Some result"
  shows "columns result = [''vehicle_id'', ''lap'', ''lap_time'', ''timestamp''] \<and>
         mset (map lap_record_of (rows result)) =
           mset (map (spec_lap_record to_datetime)
                     (spec_retained to_datetime start_table end_table)) \<and>
         (\<forall>r\<in>set (rows result). \<exists>t. r ''lap_time'' = Num t \<and> 30 < t \<and> t < 300) \<and>
         (\<forall>r\<in>set (rows result).
            (\<exists>e\<in>set (rows end_table).
                e ''vehicle_id'' = r ''vehicle_id'' \<and> e ''lap'' = r ''lap'') \<and>
            (\<exists>s\<in>set (rows start_table).
                s ''vehicle_id'' = r ''vehicle_id'' \<and> s ''lap'' = r ''lap''))"
proof -
  note R = calculate_lap_times_refines [OF assms]
  have bound: "\<exists>t. r ''lap_time'' = Num t \<and> 30 < t \<and> t < 300"
    if "r \<in> set (rows result)" for r
  proof -
    from R(3) that have "lap_time_valid r" by blast
    then show ?thesis
      by (auto simp: lap_time_valid_def split: option.splits cell.splits)
  qed
  have keys: "(\<exists>e\<in>set (rows end_table).
                e ''vehicle_id'' = r ''vehicle_id'' \<and> e ''lap'' = r ''lap'') \<and>
            (\<exists>s\<in>set (rows start_table).
                s ''vehicle_id'' = r ''vehicle_id'' \<and> s ''lap'' = r ''lap'')"
    if "r \<in> set (rows result)" for r
  proof -
    from that have "lap_record_of r \<in> set (map lap_record_of (rows result))" by simp
    with R(2) obtain p where p: "p \<in> set (spec_retained to_datetime start_table end_table)"
      and eq: "lap_record_of r = spec_lap_record to_datetime p"
      by auto
    from p have "p \<in> set (spec_joined start_table end_table)"
      by (simp add: spec_retained_def)
    then have "fst p \<in> set (rows end_table)" and "snd p \<in> set (rows start_table)"
      and "fst p ''vehicle_id'' = snd p ''vehicle_id''" and "fst p ''lap'' = snd p ''lap''"
      by (auto simp: spec_joined_def)
    moreover from eq have "r ''vehicle_id'' = fst p ''vehicle_id''" and "r ''lap'' = fst p ''lap''"
      by (simp_all add: lap_record_of_def spec_lap_record_def)
    ultimately show ?thesis by metis
  qed
  from R(1) R(2) bound keys show ?thesis by simp
qed

lemma example_derivation_returns:
  "\<exists>result. calculate_lap_times example_to_datetime example_lap_starts example_lap_ends
          = Some result"
  by (simp add: calculate_lap_times_def calculate_lap_times_body_def to_datetime_column_def
      to_datetime_cell_def merge_inner_def suffixed_def example_lap_starts_def
      example_lap_ends_def example_event_def example_to_datetime_def total_seconds_def
      join_row_def keys_agree_def Let_def)

theorem calculate_lap_times_inner_join_witness:
  "\<exists>result. calculate_lap_times example_to_datetime example_lap_starts example_lap_ends
               = Some result \<and>
     mset (map lap_record_of (rows result)) =
       {#(Str ''A'', Num 1, Some (Num 100), Some (Time 100000000000)),
         (Str ''A'', Num 2, Some (Num 90), Some (Time 190000000000))#}"
proof -
  from example_derivation_returns obtain result where
    r: "calculate_lap_times example_to_datetime example_lap_starts example_lap_ends = Some result"
    by blast
  have "map (spec_lap_record example_to_datetime)
          (spec_retained example_to_datetime example_lap_starts example_lap_ends) =
        [(Str ''A'', Num 1, Some (Num 100), Some (Time 100000000000)),
         (Str ''A'', Num 2, Some (Num 90), Some (Time 190000000000))]"
    by (simp add: spec_retained_def spec_joined_def spec_lap_record_def spec_lap_time_def
        event_time_def example_lap_starts_def example_lap_ends_def example_event_def
        example_to_datetime_def)
  with calculate_lap_times_inner_join [OF r] r show ?thesis by auto
qed

section \<open>Properties of the lap statistics analyzer\<close>


lemma num_of_Some: "num_of c = Some n \<longleftrightarrow> (c = Missing \<and> n = NaN) \<or> (\<exists>t. c = Num t \<and> n = Finite t)"
  by (cases c) auto


lemma numeric_values_total:
  assumes "\<forall>r\<in>set rs. (\<exists>t. r col = Num t) \<or> r col = Missing"
  shows "\<exists>ns. numeric_values col rs = Inr ns"
  using assms
proof (induction rs)
  case Nil
  then show ?case by (simp add: numeric_values_def)
next
  case (Cons r rs)
  then obtain ns n where "numeric_values col rs = Inr ns" and "num_of (r col) = Some n"
    by (auto simp: num_of_Some)
  then show ?case by (auto simp: numeric_values_def split: option.splits)
qed







lemmas example_engine_defs = example_engine_def example_lap_times_def example_lap_def init_def
  get_car_id_column_def get_lap_time_column_def get_lap_column_def



section \<open>Properties of the strategic insight generator\<close>

lemma set_unique [simp]: "set (unique xs) = set xs"
  by (induction xs rule: unique.induct) auto

lemma distinct_unique [simp]: "distinct (unique xs)"
  by (induction xs rule: unique.induct) auto

lemma collect_Inr:
  assumes "collect f xs = Inr ys"
  shows "ys = concat (map (\<lambda>x. projr (f x)) xs)" and "\<forall>x\<in>set xs. \<exists>y. f x = Inr y"
  using assms
  by (induction xs arbitrary: ys) (auto split: sum.splits)

lemma collect_total:
  assumes "\<forall>x\<in>set xs. \<exists>y. f x = Inr y"
  shows "collect f xs = Inr (concat (map (\<lambda>x. projr (f x)) xs))"
  using assms by (induction xs) auto

lemma subseq_concat_keys:
  assumes "\<forall>x\<in>set xs. map k (g x) = [] \<or> map k (g x) = [x]"
  shows "subseq (map k (concat (map g xs))) xs"
  using assms
proof (induction xs)
  case Nil
  then show ?case by simp
next
  case (Cons x xs)
  then have rest: "subseq (map k (concat (map g xs))) xs" by simp
  from Cons.prems have "map k (g x) = [] \<or> map k (g x) = [x]" by simp
  then show ?case
  proof
    assume "map k (g x) = []"
    with rest show ?thesis by (auto intro: list_emb_Cons)
  next
    assume "map k (g x) = [x]"
    with rest show ?thesis by simp
  qed
qed

lemma filter_concat_key:
  assumes "distinct xs" and "\<forall>x\<in>set xs. \<forall>i\<in>set (g x). k i = x"
  shows "filter (\<lambda>i. k i = c) (concat (map g xs)) = (if c \<in> set xs then g c else [])"
  using assms
proof (induction xs)
  case Nil
  then show ?case by simp
next
  case (Cons x xs)
  from Cons.prems have here: "\<forall>i\<in>set (g x). k i = x" by simp
  have "filter (\<lambda>i. k i = c) (g x) = (if c = x then g x else [])"
    using here by (auto simp: filter_empty_conv filter_id_conv)
  with Cons show ?case by auto
qed

text \<open>
  The call with the default rates returns for every lap of magnitude up to \<open>10 ^ 100\<close>.
\<close>

lemma predict_pit_window_default_returns:
  assumes "\<bar>lap\<bar> \<le> 10 ^ 100"
  shows "\<exists>r. predict_pit_window_default c lap = Inr r"
  unfolding predict_pit_window_default_def default_rates
  by (rule predict_pit_window_returns [OF assms]) simp_all


lemma pit_insight_cases:
  assumes "pit_insight lap c = Inr l"
  obtains r where "predict_pit_window_default c lap = Inr r"
    and "map priority l =
           (if urgency r = ''critical'' then [''high'']
            else if urgency r = ''high'' then [''medium''] else [])"
    and "\<forall>i\<in>set l. kind i = ''pit_strategy'' \<and> insight_car_id i = c"
    and "map insight_car_id l = [] \<or> map insight_car_id l = [c]"
proof -
  from assms obtain r where r: "predict_pit_window_default c lap = Inr r"
    by (cases "predict_pit_window_default c lap") (simp_all add: pit_insight_def)
  from assms have l: "l = projr (pit_insight lap c)" by simp
  have 2: "map priority l =
           (if urgency r = ''critical'' then [''high'']
            else if urgency r = ''high'' then [''medium''] else [])"
    by (simp add: l pit_insight_def r)
  have 3: "\<forall>i\<in>set l. kind i = ''pit_strategy'' \<and> insight_car_id i = c"
    by (simp add: l pit_insight_def r)
  have 4: "map insight_car_id l = [] \<or> map insight_car_id l = [c]"
    by (simp add: l pit_insight_def r)
  from r 2 3 4 show thesis by (rule that)
qed

lemma pit_insight_total:
  assumes "\<bar>lap\<bar> \<le> 10 ^ 100"
  shows "\<exists>l. pit_insight lap c = Inr l"
proof -
  from predict_pit_window_default_returns [OF assms, of c]
  obtain r where "predict_pit_window_default c lap = Inr r" ..
  then show ?thesis by (simp add: pit_insight_def)
qed

lemma trend_insight_Inr:
  assumes "trend_insight table cc lc ltc lap c = Inr l"
  shows "\<forall>i\<in>set l. kind i = ''performance'' \<and> insight_car_id i = c"
    and "map insight_car_id l = [] \<or> map insight_car_id l = [c]"
  using assms
  by (auto simp: trend_insight_def Let_def split: sum.splits if_splits option.splits)

lemma generate_race_insights_unfold:
  assumes "lap_times self = Some table" and "\<not> frame_empty table"
    and "get_car_id_column self = Inr (Some cc)" and "cc \<noteq> []"
  shows "generate_race_insights self lap =
     (case collect (pit_insight lap) (take 5 (unique (map (\<lambda>r. r cc) (rows table)))) of
        Inl e \<Rightarrow> Inl e
      | Inr pit \<Rightarrow>
          if named (get_lap_column self) \<and> named (get_lap_time_column self)
          then (case collect (trend_insight table cc (the (get_lap_column self))
                                (the (get_lap_time_column self)) lap)
                             (take 3 (unique (map (\<lambda>r. r cc) (rows table)))) of
                  Inl e \<Rightarrow> Inl e
                | Inr trend \<Rightarrow> Inr (pit @ trend))
          else Inr pit)"
proof -
  from assms(4) have n: "named (Some cc)" by (simp add: named_def)
  show ?thesis
    unfolding generate_race_insights_def
    by (simp add: assms n Let_def cong: sum.case_cong if_cong)
qed

lemma collect_trend_insight:
  assumes c: "collect (trend_insight table cc lc ltc lap) xs = Inr trend"
  shows "\<forall>i\<in>set trend. kind i = ''performance''"
    and "subseq (map insight_car_id trend) xs"
proof -
  let ?g = "\<lambda>x. projr (trend_insight table cc lc ltc lap x)"
  have each: "trend_insight table cc lc ltc lap x = Inr (?g x)" if "x \<in> set xs" for x
    using collect_Inr(2) [OF c] that by auto
  have eq: "trend = concat (map ?g xs)" by (rule collect_Inr(1) [OF c])
  show "\<forall>i\<in>set trend. kind i = ''performance''"
  proof
    fix i assume "i \<in> set trend"
    with eq obtain x where x: "x \<in> set xs" and i: "i \<in> set (?g x)" by auto
    from trend_insight_Inr(1) [OF each [OF x]] i show "kind i = ''performance''" by blast
  qed
  have "\<forall>x\<in>set xs. map insight_car_id (?g x) = [] \<or> map insight_car_id (?g x) = [x]"
  proof
    fix x assume "x \<in> set xs"
    from trend_insight_Inr(2) [OF each [OF this]]
    show "map insight_car_id (?g x) = [] \<or> map insight_car_id (?g x) = [x]" .
  qed
  from subseq_concat_keys [OF this] show "subseq (map insight_car_id trend) xs"
    by (simp only: eq)
qed

lemma trend_insight_total:
  assumes "\<forall>r\<in>set (rows table). (\<exists>l. r lc = Num l) \<or> r lc = Missing"
    and "\<forall>r\<in>set (rows table). (\<exists>t. r ltc = Num t) \<or> r ltc = Missing"
  shows "\<exists>l. trend_insight table cc lc ltc lap c = Inr l"
proof -
  from numeric_values_total [OF assms(1)] obtain laps where
    laps: "numeric_values lc (rows table) = Inr laps" by blast
  define recent where
    "recent = filter (\<lambda>r. cell_eq (r cc) c \<and> in_window lap (r lc)) (rows table)"
  show ?thesis
  proof (cases "3 \<le> length recent")
    case True
    then have ne: "recent \<noteq> []" by auto
    then have "hd recent \<in> set recent" and "last recent \<in> set recent" by simp_all
    then have "hd recent \<in> set (rows table)" and "last recent \<in> set (rows table)"
      by (simp_all add: recent_def)
    with assms(2) obtain a b where "num_of (hd recent ltc) = Some a"
      and "num_of (last recent ltc) = Some b"
      by (metis num_of_Some)
    with True laps show ?thesis
      by (simp add: trend_insight_def recent_def [symmetric] Let_def)
  next
    case False
    with laps show ?thesis
      by (simp add: trend_insight_def recent_def [symmetric] Let_def)
  qed
qed

lemma get_car_id_column_total:
  assumes "lap_times self = Some table" and "columns table \<noteq> []"
  shows "\<exists>cc. get_car_id_column self = Inr (Some cc)"
proof -
  let ?found = "find (\<lambda>col_name. col_name \<in> set (columns table))
                  [''CarId'', ''vehicle_id'', ''Car'', ''Vehicle'', ''vehicle_number'']"
  from assms(2) obtain c cs where c: "columns table = c # cs" by (cases "columns table") auto
  have "get_car_id_column self =
          (case ?found of Some col_name \<Rightarrow> Inr (Some col_name) | None \<Rightarrow> Inr (Some c))"
    unfolding get_car_id_column_def by (simp only: assms(1) c option.case list.case)
  then show ?thesis by (cases ?found) simp_all
qed

lemma generate_race_insights_returns:
  assumes lap: "\<bar>lap\<bar> \<le> 10 ^ 100"
    and cells: "named (get_lap_column self) \<and> named (get_lap_time_column self) \<longrightarrow>
             (\<forall>table. lap_times self = Some table \<longrightarrow>
                (\<forall>r\<in>set (rows table).
                   ((\<exists>l. r (the (get_lap_column self)) = Num l) \<or>
                      r (the (get_lap_column self)) = Missing) \<and>
                   ((\<exists>t. r (the (get_lap_time_column self)) = Num t) \<or>
                      r (the (get_lap_time_column self)) = Missing)))"
  shows "\<exists>found. generate_race_insights self lap = Inr found"
proof (cases "lap_times self")
  case None
  then show ?thesis by (simp add: generate_race_insights_def)
next
  case (Some table)
  show ?thesis
  proof (cases "frame_empty table")
    case True
    with Some show ?thesis by (simp add: generate_race_insights_def)
  next
    case False
    then have "columns table \<noteq> []" by (simp add: frame_empty_def)
    from get_car_id_column_total [OF Some this]
    obtain cc where cc: "get_car_id_column self = Inr (Some cc)" by blast
    show ?thesis
    proof (cases "cc = []")
      case True
      with Some False cc show ?thesis
        by (simp add: generate_race_insights_def named_def Let_def)
    next
      case ne: False
      let ?ids = "unique (map (\<lambda>r. r cc) (rows table))"
      from collect_total [of "take 5 ?ids" "pit_insight lap"] pit_insight_total [OF lap]
      obtain pit where pit: "collect (pit_insight lap) (take 5 ?ids) = Inr pit" by blast
      note unfold = generate_race_insights_unfold [OF Some False cc ne, of lap]
      show ?thesis
      proof (cases "named (get_lap_column self) \<and> named (get_lap_time_column self)")
        case True
        with cells Some have
          "\<forall>r\<in>set (rows table). (\<exists>l. r (the (get_lap_column self)) = Num l) \<or>
              r (the (get_lap_column self)) = Missing" and
          "\<forall>r\<in>set (rows table). (\<exists>t. r (the (get_lap_time_column self)) = Num t) \<or>
              r (the (get_lap_time_column self)) = Missing"
          by auto
        from trend_insight_total [OF this]
        have "\<forall>x\<in>set (take 3 ?ids). \<exists>y. trend_insight table cc (the (get_lap_column self))
                  (the (get_lap_time_column self)) lap x = Inr y"
          by blast
        from collect_total [OF this] obtain trend where
          "collect (trend_insight table cc (the (get_lap_column self))
                  (the (get_lap_time_column self)) lap) (take 3 ?ids) = Inr trend"
          by blast
        with unfold pit True show ?thesis by simp
      next
        case False
        with unfold pit show ?thesis by auto
      qed
    qed
  qed
qed

lemma generate_race_insights_Inr_order:
  assumes t: "lap_times self = Some table" and ne: "\<not> frame_empty table"
    and cc: "get_car_id_column self = Inr (Some cc)" and cc_ne: "cc \<noteq> []"
    and g: "generate_race_insights self lap = Inr found"
  shows "\<exists>pit trend. found = pit @ trend \<and>
           (\<forall>i\<in>set pit. kind i = ''pit_strategy'') \<and>
           (\<forall>i\<in>set trend. kind i = ''performance'') \<and>
           subseq (map insight_car_id pit) (take 5 (unique (map (\<lambda>r. r cc) (rows table)))) \<and>
           subseq (map insight_car_id trend) (take 3 (unique (map (\<lambda>r. r cc) (rows table)))) \<and>
           (\<forall>c\<in>set (take 5 (unique (map (\<lambda>r. r cc) (rows table)))).
              \<exists>r. predict_pit_window_default c lap = Inr r \<and>
                  map priority (filter (\<lambda>i. insight_car_id i = c) pit) =
                    (if urgency r = ''critical'' then [''high'']
                     else if urgency r = ''high'' then [''medium''] else []))"
proof -
  define ids where "ids = unique (map (\<lambda>r. r cc) (rows table))"
  define G where "G = (\<lambda>c. projr (pit_insight lap c))"
  note unfold = generate_race_insights_unfold [OF t ne cc cc_ne, of lap, folded ids_def]
  from g unfold obtain pit where pit: "collect (pit_insight lap) (take 5 ids) = Inr pit"
    by (cases "collect (pit_insight lap) (take 5 ids)") auto
  have pit_eq: "pit = concat (map G (take 5 ids))"
    unfolding G_def by (rule collect_Inr(1) [OF pit])
  have G: "pit_insight lap c = Inr (G c)" if "c \<in> set (take 5 ids)" for c
    using collect_Inr(2) [OF pit] that by (auto simp: G_def)
  have Gk: "\<forall>i\<in>set (G c). kind i = ''pit_strategy'' \<and> insight_car_id i = c"
    if "c \<in> set (take 5 ids)" for c
    by (rule pit_insight_cases [OF G [OF that]])
  have Gi: "map insight_car_id (G c) = [] \<or> map insight_car_id (G c) = [c]"
    if "c \<in> set (take 5 ids)" for c
    by (rule pit_insight_cases [OF G [OF that]])
  have Gp: "\<exists>r. predict_pit_window_default c lap = Inr r \<and>
                 map priority (G c) =
                    (if urgency r = ''critical'' then [''high'']
                     else if urgency r = ''high'' then [''medium''] else [])"
    if "c \<in> set (take 5 ids)" for c
  proof -
    note here = G [OF that]
    obtain r where "predict_pit_window_default c lap = Inr r" and
      "map priority (G c) =
           (if urgency r = ''critical'' then [''high'']
            else if urgency r = ''high'' then [''medium''] else [])"
      by (rule pit_insight_cases [OF here])
    then show ?thesis by (intro exI [of _ r] conjI)
  qed
  have "\<exists>trend. found = pit @ trend \<and> (\<forall>i\<in>set trend. kind i = ''performance'') \<and>
                 subseq (map insight_car_id trend) (take 3 ids)"
  proof (cases "named (get_lap_column self) \<and> named (get_lap_time_column self)")
    case True
    with g unfold pit have
      "(case collect (trend_insight table cc (the (get_lap_column self))
                     (the (get_lap_time_column self)) lap) (take 3 ids) of
          Inl e \<Rightarrow> Inl e | Inr trend \<Rightarrow> Inr (pit @ trend)) = Inr found"
      by simp
    then obtain trend where
      c: "collect (trend_insight table cc (the (get_lap_column self))
                     (the (get_lap_time_column self)) lap) (take 3 ids) = Inr trend"
      and f: "found = pit @ trend"
      by (cases "collect (trend_insight table cc (the (get_lap_column self))
                     (the (get_lap_time_column self)) lap) (take 3 ids)") auto
    from collect_trend_insight [OF c] f show ?thesis by blast
  next
    case False
    with g unfold pit have "found = pit @ []" by simp
    then show ?thesis by (intro exI [of _ "[]"]) simp
  qed
  then obtain trend where found: "found = pit @ trend"
    and k2: "\<forall>i\<in>set trend. kind i = ''performance''"
    and s2: "subseq (map insight_car_id trend) (take 3 ids)"
    by blast
  have k1: "\<forall>i\<in>set pit. kind i = ''pit_strategy''"
    using Gk by (auto simp: pit_eq)
  have "\<forall>x\<in>set (take 5 ids). map insight_car_id (G x) = [] \<or> map insight_car_id (G x) = [x]"
    using Gi by blast
  from subseq_concat_keys [OF this]
  have s1: "subseq (map insight_car_id pit) (take 5 ids)" by (simp only: pit_eq)
  have d5: "distinct (take 5 ids)" by (simp add: ids_def)
  have "\<forall>x\<in>set (take 5 ids). \<forall>i\<in>set (G x). insight_car_id i = x" using Gk by blast
  from filter_concat_key [OF d5 this]
  have f: "filter (\<lambda>i. insight_car_id i = c) pit = G c" if "c \<in> set (take 5 ids)" for c
    using that by (simp add: pit_eq)
  have p: "\<forall>c\<in>set (take 5 ids).
             \<exists>r. predict_pit_window_default c lap = Inr r \<and>
                  map priority (filter (\<lambda>i. insight_car_id i = c) pit) =
                    (if urgency r = ''critical'' then [''high'']
                     else if urgency r = ''high'' then [''medium''] else [])"
  proof
    fix c assume "c \<in> set (take 5 ids)"
    from f [OF this] Gp [OF this]
    show "\<exists>r. predict_pit_window_default c lap = Inr r \<and>
                  map priority (filter (\<lambda>i. insight_car_id i = c) pit) =
                    (if urgency r = ''critical'' then [''high'']
                     else if urgency r = ''high'' then [''medium''] else [])"
      by simp
  qed
  from found k1 k2 s1 s2 p show ?thesis
    unfolding ids_def by (intro exI [of _ pit] exI [of _ trend] conjI)
qed

text \<open>
  C7. On a non-empty lap-time table with a car-id column, the insights returned are the
  pit insights followed by the trend insights; the pit insights are about cars among the
  first five distinct car ids of the table, in the order of their first occurrence, and
  the trend insights about cars among the first three; and each of the first five cars
  gets exactly one pit insight of priority \<open>high\<close> when its pit recommendation is
  \<open>critical\<close>, exactly one of priority \<open>medium\<close> when it is \<open>high\<close>, and none when
  it is \<open>medium\<close>. The call returns whenever the lap number has a magnitude up to
  \<open>10 ^ 100\<close> and the lap and lap-time columns, if both are resolved, hold numbers or
  missing values.
\<close>

theorem generate_race_insights_order:
  assumes t: "lap_times self = Some table" and ne: "\<not> frame_empty table"
    and cc: "get_car_id_column self = Inr (Some cc)" and cc_ne: "cc \<noteq> []"
  shows "(\<forall>found. generate_race_insights self lap = Inr found \<longrightarrow>
           (\<exists>pit trend. found = pit @ trend \<and>
           (\<forall>i\<in>set pit. kind i = ''pit_strategy'') \<and>
           (\<forall>i\<in>set trend. kind i = ''performance'') \<and>
           subseq (map insight_car_id pit) (take 5 (unique (map (\<lambda>r. r cc) (rows table)))) \<and>
           subseq (map insight_car_id trend) (take 3 (unique (map (\<lambda>r. r cc) (rows table)))) \<and>
           (\<forall>c\<in>set (take 5 (unique (map (\<lambda>r. r cc) (rows table)))).
              \<exists>r. predict_pit_window_default c lap = Inr r \<and>
                  map priority (filter (\<lambda>i. insight_car_id i = c) pit) =
                    (if urgency r = ''critical'' then [''high'']
                     else if urgency r = ''high'' then [''medium''] else [])))) \<and>
         (\<bar>lap\<bar> \<le> 10 ^ 100 \<and>
          (named (get_lap_column self) \<and> named (get_lap_time_column self) \<longrightarrow>
             (\<forall>r\<in>set (rows table).
                ((\<exists>l. r (the (get_lap_column self)) = Num l) \<or>
                   r (the (get_lap_column self)) = Missing) \<and>
                ((\<exists>t. r (the (get_lap_time_column self)) = Num t) \<or>
                   r (the (get_lap_time_column self)) = Missing))) \<longrightarrow>
          (\<exists>found. generate_race_insights self lap = Inr found))"
proof (intro conjI allI impI)
  fix found
  assume "generate_race_insights self lap = Inr found"
  from generate_race_insights_Inr_order [OF t ne cc cc_ne this]
  show "\<exists>pit trend. found = pit @ trend \<and>
           (\<forall>i\<in>set pit. kind i = ''pit_strategy'') \<and>
           (\<forall>i\<in>set trend. kind i = ''performance'') \<and>
           subseq (map insight_car_id pit) (take 5 (unique (map (\<lambda>r. r cc) (rows table)))) \<and>
           subseq (map insight_car_id trend) (take 3 (unique (map (\<lambda>r. r cc) (rows table)))) \<and>
           (\<forall>c\<in>set (take 5 (unique (map (\<lambda>r. r cc) (rows table)))).
              \<exists>r. predict_pit_window_default c lap = Inr r \<and>
                  map priority (filter (\<lambda>i. insight_car_id i = c) pit) =
                    (if urgency r = ''critical'' then [''high'']
                     else if urgency r = ''high'' then [''medium''] else []))" .
next
  assume h: "\<bar>lap\<bar> \<le> 10 ^ 100 \<and>
          (named (get_lap_column self) \<and> named (get_lap_time_column self) \<longrightarrow>
             (\<forall>r\<in>set (rows table).
                ((\<exists>l. r (the (get_lap_column self)) = Num l) \<or>
                   r (the (get_lap_column self)) = Missing) \<and>
                ((\<exists>t. r (the (get_lap_time_column self)) = Num t) \<or>
                   r (the (get_lap_time_column self)) = Missing)))"
  with t have c: "named (get_lap_column self) \<and> named (get_lap_time_column self) \<longrightarrow>
             (\<forall>table. lap_times self = Some table \<longrightarrow>
                (\<forall>r\<in>set (rows table).
                   ((\<exists>l. r (the (get_lap_column self)) = Num l) \<or>
                      r (the (get_lap_column self)) = Missing) \<and>
                   ((\<exists>t. r (the (get_lap_time_column self)) = Num t) \<or>
                      r (the (get_lap_time_column self)) = Missing)))"
    by simp
  from h have "\<bar>lap\<bar> \<le> 10 ^ 100" by (rule conjunct1)
  from this c show "\<exists>found. generate_race_insights self lap = Inr found"
    by (rule generate_race_insights_returns)
qed

theorem generate_race_insights_order_witness:
  "generate_race_insights example_engine 36 =
     Inr [\<lparr>priority = ''high'', kind = ''pit_strategy'',
            message = PitNow (Str ''A'') ''tires'' (double (- (24 / 5))), insight_car_id = Str ''A''\<rparr>,
          \<lparr>priority = ''high'', kind = ''pit_strategy'',
            message = PitNow (Str ''B'') ''tires'' (double (- (24 / 5))), insight_car_id = Str ''B''\<rparr>,
          \<lparr>priority = ''high'', kind = ''pit_strategy'',
            message = PitNow (Str ''C'') ''tires'' (double (- (24 / 5))), insight_car_id = Str ''C''\<rparr>] \<and>
   unique (map (\<lambda>r. r ''vehicle_id'') (rows example_lap_times)) =
     [Str ''A'', Str ''B'', Str ''C''] \<and>
   (\<exists>pit trend.
       [\<lparr>priority = ''high'', kind = ''pit_strategy'',
          message = PitNow (Str ''A'') ''tires'' (double (- (24 / 5))), insight_car_id = Str ''A''\<rparr>,
        \<lparr>priority = ''high'', kind = ''pit_strategy'',
          message = PitNow (Str ''B'') ''tires'' (double (- (24 / 5))), insight_car_id = Str ''B''\<rparr>,
        \<lparr>priority = ''high'', kind = ''pit_strategy'',
          message = PitNow (Str ''C'') ''tires'' (double (- (24 / 5))), insight_car_id = Str ''C''\<rparr>]
         = pit @ trend \<and>
       (\<forall>i\<in>set pit. kind i = ''pit_strategy'') \<and>
       (\<forall>i\<in>set trend. kind i = ''performance'') \<and>
       subseq (map insight_car_id pit)
         (take 5 (unique (map (\<lambda>r. r ''vehicle_id'') (rows example_lap_times)))) \<and>
       subseq (map insight_car_id trend)
         (take 3 (unique (map (\<lambda>r. r ''vehicle_id'') (rows example_lap_times)))) \<and>
       (\<forall>c\<in>set (take 5 (unique (map (\<lambda>r. r ''vehicle_id'') (rows example_lap_times)))).
          \<exists>r. predict_pit_window_default c 36 = Inr r \<and>
              map priority (filter (\<lambda>i. insight_car_id i = c) pit) =
                (if urgency r = ''critical'' then [''high'']
                 else if urgency r = ''high'' then [''medium''] else [])))"
proof -
  have t: "lap_times example_engine = Some example_lap_times"
    and ne: "\<not> frame_empty example_lap_times"
    and cc: "get_car_id_column example_engine = Inr (Some ''vehicle_id'')"
    and cc_ne: "''vehicle_id'' \<noteq> []"
    by (simp_all add: example_engine_defs frame_empty_def)
  have u: "unique (map (\<lambda>r. r ''vehicle_id'') (rows example_lap_times)) =
             [Str ''A'', Str ''B'', Str ''C'']"
    by (simp add: example_lap_times_def example_lap_def)
  have p: "predict_pit_window_default c 36 =
      Inr \<lparr>car_id = c, current_lap = 36, fuel_remaining_pct = Finite 10,
            tire_condition_pct = double (- (76 / 5)), critical_factor = ''tires'',
            laps_until_critical = double (- (24 / 5)), optimal_pit_lap = 37,
            pit_window = (35, 39), urgency = ''critical''\<rparr>" for c :: cell
    by (simp add: predictor_defs float_defs)
  have g: "generate_race_insights example_engine 36 =
     Inr [\<lparr>priority = ''high'', kind = ''pit_strategy'',
            message = PitNow (Str ''A'') ''tires'' (double (- (24 / 5))), insight_car_id = Str ''A''\<rparr>,
          \<lparr>priority = ''high'', kind = ''pit_strategy'',
            message = PitNow (Str ''B'') ''tires'' (double (- (24 / 5))), insight_car_id = Str ''B''\<rparr>,
          \<lparr>priority = ''high'', kind = ''pit_strategy'',
            message = PitNow (Str ''C'') ''tires'' (double (- (24 / 5))), insight_car_id = Str ''C''\<rparr>]"
    by (simp add: generate_race_insights_def example_engine_defs frame_empty_def named_def
        numeric_values_def pit_insight_def trend_insight_def in_window_def p Let_def)
  have hyp: "\<bar>36::int\<bar> \<le> 10 ^ 100 \<and>
             (named (get_lap_column example_engine) \<and>
              named (get_lap_time_column example_engine) \<longrightarrow>
             (\<forall>r\<in>set (rows example_lap_times).
                ((\<exists>l. r (the (get_lap_column example_engine)) = Num l) \<or>
                   r (the (get_lap_column example_engine)) = Missing) \<and>
                ((\<exists>t. r (the (get_lap_time_column example_engine)) = Num t) \<or>
                   r (the (get_lap_time_column example_engine)) = Missing)))"
    by (simp add: example_engine_defs)
  note both = generate_race_insights_order [OF t ne cc cc_ne, of 36]
  from both [THEN conjunct2, THEN mp, OF hyp]
  have "\<exists>found. generate_race_insights example_engine 36 = Inr found" .
  note th = both [THEN conjunct1, THEN spec, THEN mp, OF g]
  from th g u show ?thesis
    by (intro conjI)
qed

section \<open>Properties of the race snapshot exporter\<close>




lemma length_add_positions [simp]: "length (add_positions cs) = length cs"
  by (simp add: add_positions_def)

lemma nth_add_positions:
  assumes "i < length cs"
  shows "add_positions cs ! i = (cs ! i)\<lparr>position := Some (int i + 1)\<rparr>"
  using assms by (simp add: add_positions_def nth_enumerate_eq)

lemma map_best_lap_add_positions: "map best_lap (add_positions cs) = map best_lap cs"
  by (rule nth_equalityI) (simp_all add: nth_add_positions)


text \<open>The sort on keys that are all numbers.\<close>

lemma sort_by_best_lap_finite:
  assumes "\<forall>c\<in>set cs. best_lap c \<noteq> NaN" and "\<forall>c\<in>set cs. is_finite (best_lap c) \<or> best_lap c = NaN"
  shows "sort_by_best_lap merged cs = sort_key (\<lambda>c. real_of (best_lap c)) cs"
proof -
  from assms have "list_all (\<lambda>c. is_finite (best_lap c)) cs"
    by (auto simp: list_all_iff)
  then show ?thesis by (simp add: sort_by_best_lap_def)
qed

lemma set_sort_by_best_lap:
  assumes "\<forall>c\<in>set cs. best_lap c \<noteq> NaN" and "\<forall>c\<in>set cs. is_finite (best_lap c) \<or> best_lap c = NaN"
  shows "set (sort_by_best_lap merged cs) = set cs"
  by (simp add: sort_by_best_lap_finite [OF assms])










lemma predict_pit_window_default_lap1:
  "predict_pit_window_default c 1 =
     Inr \<lparr>car_id = c, current_lap = 1, fuel_remaining_pct = double (195 / 2),
           tire_condition_pct = double (484 / 5), critical_factor = ''tires'',
           laps_until_critical = double (151 / 5), optimal_pit_lap = 28,
           pit_window = (26, 30), urgency = ''medium''\<rparr>"
  by (simp add: predictor_defs float_defs)


text \<open>
  C6 as the claim states it fails when a car has no lap time: in the table below car B
  has a row for lap 1 whose lap time is missing, so its best lap is not-a-number; the
  sort leaves the cars in the order of the table, and car A with the best lap 95 stays
  ahead of car C with 90 and car D with 93.
\<close>

theorem export_live_data_missing_counterexample:
  "\<forall>merged. \<exists>state.
     export_live_data ''2025-01-01T00:00:00'' (\<lambda>c. case c of Str s \<Rightarrow> s | _ \<Rightarrow> [])
        (\<lambda>s. None) merged example_missing_engine 1 = Inr (Some state) \<and>
     map car_name (cars state) = [''A'', ''B'', ''C'', ''D''] \<and>
     map best_lap (cars state) = [Finite 95, NaN, Finite 90, Finite 93] \<and>
     map position (cars state) = [Some 1, Some 2, Some 3, Some 4] \<and>
     float_lt (best_lap (cars state ! 2)) (best_lap (cars state ! 0))"
  by (simp add: export_live_data_def generate_race_insights_def example_missing_engine_def
      example_lap_def init_def get_car_id_column_def get_lap_time_column_def
      get_lap_column_def frame_empty_def named_def numeric_values_def pit_insight_def
      trend_insight_def in_window_def predict_pit_window_default_lap1 Let_def
      car_entry_def tail1_def add_positions_def mean_def minimum_def sort_by_best_lap_def)

section \<open>Properties of loading\<close>

lemmas section_defs = load_lap_times_def load_lap_starts_def load_lap_ends_def
  derive_lap_times_def load_telemetry_def load_results_def load_weather_def load_best_laps_def

lemmas pattern_defs = lap_time_patterns_def lap_start_patterns_def lap_end_patterns_def
  telemetry_patterns_def results_patterns_def weather_patterns_def best_laps_patterns_def

lemma first_match_empty:
  assumes "\<forall>pattern. glob h dir pattern = []"
  shows "first_match h dir ps = []"
  using assms by (induction ps) auto

lemma read_first_empty:
  assumes "\<forall>pattern. glob h dir pattern = []"
  shows "read_first h dir ps = Inr None"
  by (simp add: read_first_def first_match_empty [OF assms])

lemma read_first_Inl:
  assumes "read_first h dir ps = Inl e"
  shows "\<exists>file. read_csv h file = Inl e"
  using assms by (auto simp: read_first_def split: list.splits sum.splits)

lemma read_first_total:
  assumes "\<forall>file. \<exists>df. read_csv h file = Inr df"
  shows "\<exists>t. read_first h dir ps = Inr t"
proof (cases "first_match h dir ps")
  case Nil
  then show ?thesis by (simp add: read_first_def)
next
  case (Cons f fs)
  from assms obtain df where "read_csv h f = Inr df" by blast
  with Cons show ?thesis by (simp add: read_first_def)
qed

lemma section_Inl:
  assumes "f \<in> set (sections h)" and "f s = Inl e"
  shows "\<exists>file. read_csv h file = Inl e"
  using assms
  by (auto simp: sections_def section_defs dest: read_first_Inl
      split: sum.splits option.splits)

lemma section_total:
  assumes "\<forall>file. \<exists>df. read_csv h file = Inr df" and "f \<in> set (sections h)"
  shows "\<exists>s'. f s = Inr s'"
proof -
  have r: "\<exists>t. read_first h (data_dir s) ps = Inr t" for ps
    by (rule read_first_total [OF assms(1)])
  from assms(2) consider "f = load_lap_times h" | "f = load_lap_starts h" | "f = load_lap_ends h"
    | "f = derive_lap_times h" | "f = load_telemetry h" | "f = load_results h"
    | "f = load_weather h" | "f = load_best_laps h"
    by (auto simp: sections_def)
  then show ?thesis
  proof cases
    case 1 with r [of "lap_time_patterns s"] show ?thesis
      by (auto simp: load_lap_times_def split: option.splits)
  next
    case 2 with r [of "lap_start_patterns s"] show ?thesis
      by (auto simp: load_lap_starts_def split: option.splits)
  next
    case 3 with r [of "lap_end_patterns s"] show ?thesis
      by (auto simp: load_lap_ends_def split: option.splits)
  next
    case 4 then show ?thesis
      by (auto simp: derive_lap_times_def split: option.splits)
  next
    case 5 with r [of "telemetry_patterns s"] show ?thesis
      by (auto simp: load_telemetry_def split: option.splits)
  next
    case 6 with r [of "results_patterns s"] show ?thesis
      by (auto simp: load_results_def split: option.splits)
  next
    case 7 with r [of "weather_patterns s"] show ?thesis
      by (auto simp: load_weather_def split: option.splits)
  next
    case 8 with r [of "best_laps_patterns s"] show ?thesis
      by (auto simp: load_best_laps_def split: option.splits)
  qed
qed

lemma section_data_dir:
  assumes "f \<in> set (sections h)" and "f s = Inr s'"
  shows "data_dir s' = data_dir s"
  using assms
  by (auto simp: sections_def section_defs split: sum.splits option.splits)

lemma section_no_files:
  assumes "\<forall>pattern. glob h (data_dir s) pattern = []" and "f \<in> set (sections h)"
  shows "\<exists>s'. f s = Inr s'"
  using assms(2) read_first_empty [OF assms(1)]
  by (auto simp: sections_def section_defs split: option.splits)

lemma steps_Some:
  assumes "snd (foldl (\<lambda>state section. step section state) st fs) = Some e"
  shows "snd st = Some e \<or> (\<exists>f\<in>set fs. \<exists>s. f s = Inl e)"
  using assms
proof (induction fs arbitrary: st)
  case Nil
  then show ?case by simp
next
  case (Cons f fs)
  from Cons.IH [of "step f st"] Cons.prems
  have "snd (step f st) = Some e \<or> (\<exists>f\<in>set fs. \<exists>s. f s = Inl e)" by simp
  then show ?case
  proof
    assume a: "snd (step f st) = Some e"
    obtain s x where st: "st = (s, x)" by (cases st)
    show ?thesis
    proof (cases x)
      case None
      with a st have "f s = Inl e" by (auto split: sum.splits)
      then show ?thesis by auto
    next
      case (Some e')
      with a st show ?thesis by simp
    qed
  next
    assume "\<exists>f\<in>set fs. \<exists>s. f s = Inl e"
    then show ?thesis by auto
  qed
qed

lemma steps_None:
  assumes "\<forall>f\<in>set fs. \<forall>s. Q s \<longrightarrow> (\<exists>s'. f s = Inr s' \<and> Q s')" and "Q (fst st)" and "snd st = None"
  shows "snd (foldl (\<lambda>state section. step section state) st fs) = None"
  using assms
proof (induction fs arbitrary: st)
  case Nil
  then show ?case by simp
next
  case (Cons f fs)
  obtain s where st: "st = (s, None)" using Cons.prems(3) by (cases st) auto
  with Cons.prems obtain s' where s': "f s = Inr s'" "Q s'" by auto
  with st have "step f st = (s', None)" by simp
  with Cons.IH [of "(s', None)"] Cons.prems(1) s'(2) show ?case by simp
qed

lemma snd_load_data: "snd (load_data h self) \<longleftrightarrow> snd (load_data_body h self) = None"
  by (simp add: load_data_def split: prod.splits option.splits)

text \<open>
  C10. \<^verbatim>\<open>load_data\<close> returns \<^verbatim>\<open>True\<close> exactly when no exception was raised inside its
  \<^verbatim>\<open>try\<close> block. With no file in the data directory it returns \<^verbatim>\<open>True\<close>, and a fresh
  engine is left with every table unloaded; it also returns \<^verbatim>\<open>True\<close> whenever every file
  can be read. When it returns \<^verbatim>\<open>False\<close>, an exception was raised and caught, and it
  was raised by the reading of a file.
\<close>

theorem load_data_success_flag:
  "(snd (load_data h self) \<longleftrightarrow> snd (load_data_body h self) = None) \<and>
   ((\<forall>pattern. glob h (data_dir self) pattern = []) \<longrightarrow> snd (load_data h self)) \<and>
   ((\<forall>pattern. glob h (''./'' @ tname) pattern = []) \<longrightarrow>
      load_data h (init tname race) = (init tname race, True) \<and>
      lap_times (init tname race) = None \<and> lap_starts (init tname race) = None \<and>
      lap_ends (init tname race) = None \<and> telemetry (init tname race) = None \<and>
      results (init tname race) = None \<and> weather (init tname race) = None \<and>
      best_laps (init tname race) = None) \<and>
   ((\<forall>file. \<exists>df. read_csv h file = Inr df) \<longrightarrow> snd (load_data h self)) \<and>
   (\<not> snd (load_data h self) \<longrightarrow>
      (\<exists>e file. snd (load_data_body h self) = Some e \<and> read_csv h file = Inl e))"
proof -
  have 1: "snd (load_data h self) \<longleftrightarrow> snd (load_data_body h self) = None"
    by (rule snd_load_data)
  have 2: "(\<forall>pattern. glob h (data_dir self) pattern = []) \<longrightarrow> snd (load_data h self)"
  proof
    assume g: "\<forall>pattern. glob h (data_dir self) pattern = []"
    define Q where "Q = (\<lambda>s::engine. data_dir s = data_dir self)"
    have "\<forall>f\<in>set (sections h). \<forall>s. Q s \<longrightarrow> (\<exists>s'. f s = Inr s' \<and> Q s')"
    proof (intro ballI allI impI)
      fix f s assume f: "f \<in> set (sections h)" and "Q s"
      then have d: "data_dir s = data_dir self" by (simp add: Q_def)
      with g have "\<forall>pattern. glob h (data_dir s) pattern = []" by simp
      from section_no_files [OF this f] obtain s' where s': "f s = Inr s'" by blast
      from section_data_dir [OF f s'] d have "Q s'" by (simp add: Q_def)
      with s' show "\<exists>s'. f s = Inr s' \<and> Q s'" by blast
    qed
    from steps_None [OF this, of "(self, None)"]
    have "snd (load_data_body h self) = None" by (simp add: load_data_body_def Q_def)
    then show "snd (load_data h self)" by (simp add: snd_load_data)
  qed
  have 3: "(\<forall>pattern. glob h (''./'' @ tname) pattern = []) \<longrightarrow>
      load_data h (init tname race) = (init tname race, True) \<and>
      lap_times (init tname race) = None \<and> lap_starts (init tname race) = None \<and>
      lap_ends (init tname race) = None \<and> telemetry (init tname race) = None \<and>
      results (init tname race) = None \<and> weather (init tname race) = None \<and>
      best_laps (init tname race) = None"
  proof
    assume g: "\<forall>pattern. glob h (''./'' @ tname) pattern = []"
    then have "read_first h (''./'' @ tname) ps = Inr None" for ps
      by (rule read_first_empty)
    then show "load_data h (init tname race) = (init tname race, True) \<and>
      lap_times (init tname race) = None \<and> lap_starts (init tname race) = None \<and>
      lap_ends (init tname race) = None \<and> telemetry (init tname race) = None \<and>
      results (init tname race) = None \<and> weather (init tname race) = None \<and>
      best_laps (init tname race) = None"
      by (simp add: load_data_def load_data_body_def sections_def section_defs init_def)
  qed
  have 4: "(\<forall>file. \<exists>df. read_csv h file = Inr df) \<longrightarrow> snd (load_data h self)"
  proof
    assume r: "\<forall>file. \<exists>df. read_csv h file = Inr df"
    have "\<forall>f\<in>set (sections h). \<forall>s. True \<longrightarrow> (\<exists>s'. f s = Inr s' \<and> True)"
      using section_total [OF r] by blast
    from steps_None [OF this, of "(self, None)"]
    have "snd (load_data_body h self) = None" by (simp add: load_data_body_def)
    then show "snd (load_data h self)" by (simp add: snd_load_data)
  qed
  have 5: "\<not> snd (load_data h self) \<longrightarrow>
      (\<exists>e file. snd (load_data_body h self) = Some e \<and> read_csv h file = Inl e)"
  proof
    assume "\<not> snd (load_data h self)"
    then obtain e where e: "snd (load_data_body h self) = Some e"
      by (auto simp: snd_load_data)
    then have "snd (foldl (\<lambda>state section. step section state) (self, None) (sections h)) = Some e"
      by (simp add: load_data_body_def)
    from steps_Some [OF this] obtain f s where "f \<in> set (sections h)" and "f s = Inl e"
      by auto
    from section_Inl [OF this] e
    show "\<exists>e file. snd (load_data_body h self) = Some e \<and> read_csv h file = Inl e"
      by blast
  qed
  from 1 2 3 4 5 show ?thesis by (intro conjI)
qed

lemmas load_data_defs = load_data_def load_data_body_def sections_def section_defs
  read_first_def pattern_defs init_def str_int_def str_nat.simps digit_def

theorem load_data_success_flag_witness:
  "load_data empty_host (init ''vir'' 1) = (init ''vir'' 1, True) \<and>
   lap_times (init ''vir'' 1) = None \<and>
   snd (load_data broken_host (init ''vir'' 1)) = False \<and>
   (\<exists>e file. snd (load_data_body broken_host (init ''vir'' 1)) = Some e \<and>
             read_csv broken_host file = Inl e)"
proof -
  have g: "\<forall>pattern. glob empty_host (''./'' @ ''vir'') pattern = []"
    by (simp add: empty_host_def)
  have b: "\<not> snd (load_data broken_host (init ''vir'' 1))"
    by (simp add: load_data_defs broken_host_def)
  note th1 = load_data_success_flag [of empty_host "init ''vir'' 1" "''vir''" 1]
  note th2 = load_data_success_flag [of broken_host "init ''vir'' 1" "''vir''" 1]
  from th1 g have 1: "load_data empty_host (init ''vir'' 1) = (init ''vir'' 1, True)"
    and 2: "lap_times (init ''vir'' 1) = None"
    by blast+
  from th2 b have 3: "\<exists>e file. snd (load_data_body broken_host (init ''vir'' 1)) = Some e \<and>
             read_csv broken_host file = Inl e"
    by blast
  from 1 2 b 3 show ?thesis by simp
qed

lemma step_preserves:
  assumes "\<And>s s'. f s = Inr s' \<Longrightarrow> K s' = K s"
  shows "K (fst (step f st)) = K (fst st)"
proof -
  obtain s x where st: "st = (s, x)" by (cases st)
  show ?thesis
  proof (cases x)
    case None
    with st assms show ?thesis by (cases "f s") auto
  next
    case (Some e)
    with st show ?thesis by simp
  qed
qed

lemma later_sections_keep_lap_tables:
  assumes "f \<in> {load_telemetry h, load_results h, load_weather h, load_best_laps h}"
    and "f s = Inr s'"
  shows "(lap_times s', lap_starts s', lap_ends s') = (lap_times s, lap_starts s, lap_ends s)"
  using assms
  by (auto simp: load_telemetry_def load_results_def load_weather_def load_best_laps_def
      split: sum.splits option.splits)

lemma column_getters_cong:
  assumes "lap_times s = lap_times s'"
  shows "get_car_id_column s = get_car_id_column s'"
    and "get_lap_time_column s = get_lap_time_column s'"
    and "get_lap_column s = get_lap_column s'"
  using assms
  by (simp_all add: get_car_id_column_def get_lap_time_column_def get_lap_column_def)

lemma analyze_lap_times_cong:
  assumes "lap_times s = lap_times s'"
  shows "analyze_lap_times s c = analyze_lap_times s' c"
  unfolding analyze_lap_times_def
  by (simp only: assms column_getters_cong [OF assms])

lemma generate_race_insights_cong:
  assumes "lap_times s = lap_times s'"
  shows "generate_race_insights s lap = generate_race_insights s' lap"
  unfolding generate_race_insights_def
  by (simp only: assms column_getters_cong [OF assms])

text \<open>
  C8. When a direct lap-time file, a lap-start file and a lap-end file are all found and
  read, the direct table is assigned first and the table derived from the start and end
  events is assigned over it; the engine that \<^verbatim>\<open>load_data\<close> leaves holds the derived
  table (or no table, when the derivation fails), whatever happens to the files read
  later, and the analyses read that table.
\<close>

theorem load_data_derived_overwrites:
  assumes "first_match h (data_dir self) (lap_time_patterns self) = f1 # fs1"
    and "read_csv h f1 = Inr direct"
    and "first_match h (data_dir self) (lap_start_patterns self) = f2 # fs2"
    and "read_csv h f2 = Inr starts"
    and "first_match h (data_dir self) (lap_end_patterns self) = f3 # fs3"
    and "read_csv h f3 = Inr ends"
  shows "load_lap_times h self = Inr (self\<lparr>lap_times := Some direct\<rparr>) \<and>
         lap_times (fst (load_data h self)) =
           calculate_lap_times (parse_datetime h) starts ends \<and>
         lap_starts (fst (load_data h self)) = Some starts \<and>
         lap_ends (fst (load_data h self)) = Some ends \<and>
         (\<forall>c. analyze_lap_times (fst (load_data h self)) c =
               analyze_lap_times
                 (self\<lparr>lap_times := calculate_lap_times (parse_datetime h) starts ends\<rparr>) c) \<and>
         (\<forall>lap. generate_race_insights (fst (load_data h self)) lap =
               generate_race_insights
                 (self\<lparr>lap_times := calculate_lap_times (parse_datetime h) starts ends\<rparr>) lap)"
proof -
  let ?derived = "calculate_lap_times (parse_datetime h) starts ends"
  let ?K = "\<lambda>s::engine. (lap_times s, lap_starts s, lap_ends s)"
  define s1 where "s1 = self\<lparr>lap_times := Some direct\<rparr>"
  define s2 where "s2 = s1\<lparr>lap_starts := Some starts\<rparr>"
  define s3 where "s3 = s2\<lparr>lap_ends := Some ends\<rparr>"
  define s4 where "s4 = s3\<lparr>lap_times := ?derived\<rparr>"
  have l1: "load_lap_times h self = Inr s1"
    using assms(1,2) by (simp add: load_lap_times_def read_first_def s1_def)
  have p2: "data_dir s1 = data_dir self" "lap_start_patterns s1 = lap_start_patterns self"
    by (simp_all add: s1_def lap_start_patterns_def)
  have l2: "load_lap_starts h s1 = Inr s2"
    using assms(3,4) by (simp add: load_lap_starts_def read_first_def s2_def p2)
  have p3: "data_dir s2 = data_dir self" "lap_end_patterns s2 = lap_end_patterns self"
    by (simp_all add: s1_def s2_def lap_end_patterns_def)
  have l3: "load_lap_ends h s2 = Inr s3"
    using assms(5,6) by (simp add: load_lap_ends_def read_first_def s3_def p3)
  have l4: "derive_lap_times h s3 = Inr s4"
    by (simp add: derive_lap_times_def s4_def s3_def s2_def s1_def)
  define a1 where "a1 = step (load_telemetry h) (s4, None)"
  define a2 where "a2 = step (load_results h) a1"
  define a3 where "a3 = step (load_weather h) a2"
  define a4 where "a4 = step (load_best_laps h) a3"
  have body: "load_data_body h self = a4"
    by (simp add: load_data_body_def sections_def l1 l2 l3 l4 a1_def a2_def a3_def a4_def)
  have keep: "?K (fst (step f st)) = ?K (fst st)"
    if "f \<in> {load_telemetry h, load_results h, load_weather h, load_best_laps h}" for f st
    by (rule step_preserves [where K = ?K]) (rule later_sections_keep_lap_tables [OF that])
  have "?K (fst a4) = ?K (fst a3)" unfolding a4_def by (rule keep) simp
  also have "\<dots> = ?K (fst a2)" unfolding a3_def by (rule keep) simp
  also have "\<dots> = ?K (fst a1)" unfolding a2_def by (rule keep) simp
  also have "\<dots> = ?K s4"
    unfolding a1_def using keep [of "load_telemetry h" "(s4, None)"] by simp
  finally have "?K (fst a4) = ?K s4" .
  moreover have "fst (load_data h self) = fst (load_data_body h self)"
    by (simp add: load_data_def split: prod.splits option.splits)
  ultimately have K: "?K (fst (load_data h self)) = ?K s4"
    by (simp only: body)
  have k4: "?K s4 = (?derived, Some starts, Some ends)"
    by (simp add: s4_def s3_def s2_def s1_def)
  from K k4 have lt: "lap_times (fst (load_data h self)) = ?derived"
    and ls: "lap_starts (fst (load_data h self)) = Some starts"
    and le: "lap_ends (fst (load_data h self)) = Some ends"
    by simp_all
  have same: "lap_times (fst (load_data h self)) = lap_times (self\<lparr>lap_times := ?derived\<rparr>)"
    by (simp add: lt)
  from l1 lt ls le analyze_lap_times_cong [OF same] generate_race_insights_cong [OF same]
  show ?thesis by (simp add: s1_def)
qed

theorem load_data_derived_overwrites_witness:
  "load_lap_times example_host (init ''vir'' 1) =
     Inr ((init ''vir'' 1)\<lparr>lap_times := Some example_lap_times\<rparr>) \<and>
   lap_times (fst (load_data example_host (init ''vir'' 1))) =
     calculate_lap_times example_to_datetime example_lap_starts example_lap_ends \<and>
   map_option columns (lap_times (fst (load_data example_host (init ''vir'' 1)))) =
     Some [''vehicle_id'', ''lap'', ''lap_time'', ''timestamp''] \<and>
   columns example_lap_times = [''vehicle_id'', ''lap'', ''lap_time'']"
proof -
  let ?self = "init ''vir'' 1"
  have a: "first_match example_host (data_dir ?self) (lap_time_patterns ?self) =
             ''./vir/R1_vir_lap_time.csv'' # []"
    "read_csv example_host ''./vir/R1_vir_lap_time.csv'' = Inr example_lap_times"
    "first_match example_host (data_dir ?self) (lap_start_patterns ?self) =
             ''./vir/R1_vir_lap_start.csv'' # []"
    "read_csv example_host ''./vir/R1_vir_lap_start.csv'' = Inr example_lap_starts"
    "first_match example_host (data_dir ?self) (lap_end_patterns ?self) =
             ''./vir/R1_vir_lap_end.csv'' # []"
    "read_csv example_host ''./vir/R1_vir_lap_end.csv'' = Inr example_lap_ends"
    by (simp_all add: example_host_def pattern_defs init_def str_int_def str_nat.simps digit_def)
  have p: "parse_datetime example_host = example_to_datetime"
    by (simp add: example_host_def)
  note th = load_data_derived_overwrites [OF a, unfolded p]
  from th have 1: "load_lap_times example_host ?self =
     Inr (?self\<lparr>lap_times := Some example_lap_times\<rparr>)" by (rule conjunct1)
  from th have 2: "lap_times (fst (load_data example_host ?self)) =
     calculate_lap_times example_to_datetime example_lap_starts example_lap_ends"
    by (elim conjE)
  obtain result where r: "calculate_lap_times example_to_datetime example_lap_starts
      example_lap_ends = Some result"
    using example_derivation_returns by (elim exE)
  from calculate_lap_times_refines(1) [OF r] r 2
  have 3: "map_option columns (lap_times (fst (load_data example_host ?self))) =
     Some [''vehicle_id'', ''lap'', ''lap_time'', ''timestamp'']" by simp
  have 4: "columns example_lap_times = [''vehicle_id'', ''lap'', ''lap_time'']"
    by (simp add: example_lap_times_def)
  from 1 2 3 4 show ?thesis by (intro conjI)
qed

end
